theory Spec2Isabelle
  imports Complex_Main
begin

section \<open>SumpAlarm.cpp: the float-switch monitor\<close>

text \<open>
  A shallow embedding of \<^verbatim>\<open>src/SumpAlarm.cpp\<close>. The C \<^verbatim>\<open>int\<close> and \<^verbatim>\<open>time_t\<close>
  values are mathematical integers here: signed overflow is undefined in C, so the model
  describes the executions in which every intermediate value stays in the range of its
  type. Integer division and remainder truncate towards zero, as C's do. The fork into a
  daemon, the signal handlers and the log file are outside the model; a request to
  terminate ends the loop after the pass in progress, so what the process does is a finite
  list of passes.
\<close>

subsection \<open>C integer and floating-point arithmetic\<close>

definition c_div :: "int \<Rightarrow> int \<Rightarrow> int" where
  "c_div a b = sgn a * sgn b * (\<bar>a\<bar> div \<bar>b\<bar>)"

definition c_mod :: "int \<Rightarrow> int \<Rightarrow> int" where
  "c_mod a b = a - b * c_div a b"

text \<open>
  The program computes volumes and rates in \<^verbatim>\<open>double\<close> and converts the result to
  \<^verbatim>\<open>int\<close>. The model evaluates these expressions exactly, over the rationals, and
  converts as C does (the fraction is dropped). The program's value can differ from the
  model's only where the exact value lies within the rounding error of \<^verbatim>\<open>double\<close>
  arithmetic of a whole number.
\<close>

definition double_to_int :: "rat \<Rightarrow> int" where
  "double_to_int x = (if x < 0 then - \<lfloor>- x\<rfloor> else \<lfloor>x\<rfloor>)"

text \<open>
  The comparison of the rate-change detector is decided by the rounding of its operands,
  so there the model rounds as the program does: \<open>to_double x\<close> is the \<^verbatim>\<open>double\<close>
  (IEEE 754 binary64) nearest to \<open>x\<close>, the one with an even significand when two are
  equally near. \<open>binade x\<close> is the exponent \<open>e\<close> with \<open>2^e \<le> x < 2^(e+1)\<close> of a positive
  \<open>x\<close>, and a \<^verbatim>\<open>double\<close> in that range is a multiple of \<open>2^(e-52)\<close>. The operands
  of the program are quotients and sums of C \<^verbatim>\<open>int\<close> values, far from the range where
  a \<^verbatim>\<open>double\<close> overflows or loses precision.
\<close>

definition pow2 :: "int \<Rightarrow> rat" where
  "pow2 k = (if k \<ge> 0 then 2 ^ nat k else 1 / 2 ^ nat (- k))"

function bit_length :: "int \<Rightarrow> int" where
  "bit_length n = (if n \<le> 0 then 0 else 1 + bit_length (n div 2))"
  by pat_completeness auto
termination
  by (relation "measure nat") auto

declare bit_length.simps [simp del]

definition binade :: "rat \<Rightarrow> int" where
  "binade x =
     (let p = fst (quotient_of x); q = snd (quotient_of x);
          k = bit_length p - bit_length q
      in if pow2 k \<le> x then k else k - 1)"

definition round_half_even :: "rat \<Rightarrow> int" where
  "round_half_even m =
     (let f = \<lfloor>m\<rfloor>; r = m - of_int f
      in if r < 1 / 2 then f
         else if r > 1 / 2 then f + 1
         else if even f then f else f + 1)"

definition to_double :: "rat \<Rightarrow> rat" where
  "to_double x =
     (if x = 0 then 0
      else let u = pow2 (binade \<bar>x\<bar> - 52)
           in sgn x * of_int (round_half_even (\<bar>x\<bar> / u)) * u)"

text \<open>The decimal digits that \<^verbatim>\<open>snprintf\<close> writes for \<^verbatim>\<open>%d\<close>.\<close>

fun digits_of :: "nat \<Rightarrow> string" where
  "digits_of n =
     (if n < 10 then [char_of (48 + n)]
      else digits_of (n div 10) @ [char_of (48 + n mod 10)])"

definition fmt_d :: "int \<Rightarrow> string" where
  "fmt_d i = (if i < 0 then CHR ''-'' # digits_of (nat (- i)) else digits_of (nat i))"

subsection \<open>The switch record and the configuration\<close>

definition FREQ_HISTORY :: nat where
  "FREQ_HISTORY = 4"

definition BOUNCEDELAY :: int where
  "BOUNCEDELAY = 5"

definition HIGH :: int where
  "HIGH = 1"

definition LOW :: int where
  "LOW = 0"

text \<open>
  \<^verbatim>\<open>struct FloatSwitch\<close>. The array \<^verbatim>\<open>freq[FREQ_HISTORY]\<close> is a map from the index
  to the cell; only the indices below \<open>FREQ_HISTORY\<close> are ever read or written. An action
  string is \<open>None\<close> where the C pointer is \<^verbatim>\<open>NULL\<close>.
\<close>

record FloatSwitch =
  initialized :: int
  level :: int
  pin :: int
  OnAction :: "string option"
  OffAction :: "string option"
  freq :: "nat \<Rightarrow> int"
  lastfreq :: int
  state :: int
  LastOn :: int
  LastOff :: int
  bouncedelay :: int

text \<open>
  \<^verbatim>\<open>struct ConfigData\<close>. Its member \<^verbatim>\<open>freq\<close> is the field \<open>cd_freq\<close> here, since
  \<open>freq\<close> names the history of a switch. \<^verbatim>\<open>switchlist[100]\<close> is a map from the index;
  the program only uses the indices 0 to 99.
\<close>

record ConfigData =
  sumpdepth :: int
  sumpdiameter :: int
  lowwater :: int
  highwater :: int
  capacity :: int
  vol :: int
  rate :: int
  cd_freq :: int
  ratechangeamt :: int
  ratechange :: "string option"
  switchlist :: "nat \<Rightarrow> FloatSwitch"
  overduethreshold :: int
  overdue :: "string option"

subsection \<open>GetFrequency\<close>

text \<open>
  The loop of \<^verbatim>\<open>GetFrequency\<close> adds every cell to \<open>f\<close> and counts the zero cells in
  \<open>z\<close>; the pair \<open>(f, z)\<close> is the loop state.
\<close>

definition GetFrequency_step :: "(nat \<Rightarrow> int) \<Rightarrow> nat \<Rightarrow> int \<times> int \<Rightarrow> int \<times> int" where
  "GetFrequency_step a i fz = (fst fz + a i, if a i = 0 then snd fz + 1 else snd fz)"

definition GetFrequency :: "FloatSwitch \<Rightarrow> int" where
  "GetFrequency s =
     (let fz = fold (GetFrequency_step (freq s)) [0..<FREQ_HISTORY] (0, 0);
          f = fst fz; z = snd fz
      in if z \<noteq> int FREQ_HISTORY then c_div f (int FREQ_HISTORY - z) else f)"

text \<open>
  The specification words the same value as the average of the non-empty entries of the
  history, an entry being empty when it is 0. These are the entries it averages.
\<close>

definition nonzero_entries :: "(nat \<Rightarrow> int) \<Rightarrow> int list" where
  "nonzero_entries a = filter (\<lambda>x. x \<noteq> 0) (map a [0..<FREQ_HISTORY])"

text \<open>The history array holding the given four values, oldest first.\<close>

definition history :: "int list \<Rightarrow> nat \<Rightarrow> int" where
  "history xs i = (if i < length xs then xs ! i else 0)"

subsection \<open>The environment and SetEnvironment\<close>

text \<open>
  The process environment is a list of name and value pairs; \<^verbatim>\<open>setenv(name, v, 1)\<close>
  overwrites the value of a name that is there and adds the pair otherwise.
\<close>

type_synonym env = "(string \<times> string) list"

fun setenv :: "string \<Rightarrow> string \<Rightarrow> env \<Rightarrow> env" where
  "setenv n v [] = [(n, v)]"
| "setenv n v (kw # e) = (if fst kw = n then (n, v) # e else kw # setenv n v e)"

definition getenv :: "env \<Rightarrow> string \<Rightarrow> string option" where
  "getenv e n = map_of e n"

text \<open>
  The three quantities \<^verbatim>\<open>SetEnvironment\<close> computes, in the order of the source:
  \<^verbatim>\<open>cd.vol\<close>, \<^verbatim>\<open>cd.rate\<close> and \<^verbatim>\<open>timeleft\<close>. \<^verbatim>\<open>cd\<close> is passed by value, so the
  two fields it assigns are those of the copy and the caller's record is unchanged.
\<close>

definition SE_vol :: "FloatSwitch \<Rightarrow> ConfigData \<Rightarrow> int" where
  "SE_vol s cd =
     double_to_int
       (((of_int (level s) / 10)
          * (314159265 / 100000000 * (of_int (sumpdiameter cd) / 20) * (of_int (sumpdiameter cd) / 20)))
        / 1000)"

definition SE_rate :: "ConfigData \<Rightarrow> int" where
  "SE_rate cd =
     (if cd_freq cd \<noteq> 0 then
        double_to_int
          ((((of_int (highwater cd - lowwater cd) / 10
              * (314159265 / 100000000 * (of_int (sumpdiameter cd) / 20) * (of_int (sumpdiameter cd) / 20)))
             / 1000) * 3600) / of_int (cd_freq cd))
      else 0)"

definition SE_timeleft :: "FloatSwitch \<Rightarrow> ConfigData \<Rightarrow> int" where
  "SE_timeleft s cd =
     (if SE_rate cd = 0 then 0
      else c_div ((capacity cd - SE_vol s cd) * 3600) (SE_rate cd))"

definition SetEnvironment :: "FloatSwitch \<Rightarrow> ConfigData \<Rightarrow> env \<Rightarrow> env" where
  "SetEnvironment s cd e =
     (let e1 = setenv ''SAFREQ'' (fmt_d (cd_freq cd)) e;
          e2 = setenv ''SAFREQF''
                 (fmt_d (c_div (cd_freq cd) 60) @ ''m '' @ fmt_d (c_mod (cd_freq cd) 60) @ ''s'') e1;
          e3 = setenv ''SAVOLUME'' (fmt_d (SE_vol s cd)) e2;
          e4 = setenv ''SARATE'' (fmt_d (SE_rate cd)) e3;
          e5 = setenv ''SATIMELEFT'' (fmt_d (SE_timeleft s cd)) e4
      in setenv ''SATIMELEFTM'' (fmt_d (c_div (SE_timeleft s cd) 60)) e5)"

text \<open>
  The specification's formula for the rate, in the units of the program: lengths are in
  millimetres, \<open>crossSectionalArea\<close> is in square centimetres, and a thousand cubic
  centimetres are a litre.
\<close>

definition crossSectionalArea :: "int \<Rightarrow> rat" where
  "crossSectionalArea d = 314159265 / 100000000 * (of_int d / 20)\<^sup>2"

definition spec_rate :: "ConfigData \<Rightarrow> rat" where
  "spec_rate cd =
     crossSectionalArea (sumpdiameter cd) * (of_int (highwater cd - lowwater cd) / 10) / 1000
       * 3600 / of_int (cd_freq cd)"

subsection \<open>The state of the process and Action\<close>

text \<open>
  An action string reaches \<^verbatim>\<open>system\<close> in a forked child, which inherits the environment
  of that moment. The model records each such command, the call of \<^verbatim>\<open>Action\<close> it comes
  from and the environment it sees, in the order of the calls (\<^verbatim>\<open>fork\<close> is taken to
  succeed).
\<close>

datatype site = SwitchOnSite nat | SwitchOffSite nat | RateChangeSite | OverdueSite

datatype event = Executed site string env

fun event_site :: "event \<Rightarrow> site" where
  "event_site (Executed k a e) = k"

fun event_env :: "event \<Rightarrow> env" where
  "event_env (Executed k a e) = e"

text \<open>
  What the process holds between two statements of \<^verbatim>\<open>main\<close>: the locals \<^verbatim>\<open>cd\<close>,
  \<^verbatim>\<open>overduenotice\<close> and \<^verbatim>\<open>LastConfigCheck\<close>, the globals \<^verbatim>\<open>LogLevel\<close> and
  \<^verbatim>\<open>LogFileName\<close>, the static \<^verbatim>\<open>hash\<close> of \<^verbatim>\<open>RefreshConfig\<close> (as the C string it
  holds), the environment, the commands dispatched so far, and \<open>fe_divbyzero\<close>: whether
  a floating-point division by zero has been evaluated (the divide-by-zero status flag of
  IEEE 754, which the program never clears or reads). Writing the log is not modelled.
\<close>

record main_state =
  cd :: ConfigData
  overduenotice :: bool
  LastConfigCheck :: int
  hash :: string
  LogLevel :: int
  LogFileName :: string
  environ :: env
  dispatched :: "event list"
  fe_divbyzero :: bool

definition Action :: "site \<Rightarrow> string option \<Rightarrow> main_state \<Rightarrow> main_state" where
  "Action k action st =
     (case action of
        None \<Rightarrow> st
      | Some a \<Rightarrow> st\<lparr>dispatched := dispatched st @ [Executed k a (environ st)]\<rparr>)"

subsection \<open>C strings in the line buffer\<close>

text \<open>
  \<^verbatim>\<open>RefreshConfig\<close> reads each line into the array \<^verbatim>\<open>cline\<close> and parses it in place,
  at fixed offsets. The buffer is the list of its cells; a C string starts at an offset
  and ends before the next NUL. Cells past the end of the list read as NUL, and a write
  past the end extends the list. Where a line is shorter than an offset the program reads
  the cells an earlier line left behind, and so does the model.
\<close>

type_synonym buffer = "char list"

definition NUL :: char where
  "NUL = CHR 0x00"

definition peek :: "buffer \<Rightarrow> nat \<Rightarrow> char" where
  "peek b i = (if i < length b then b ! i else NUL)"

definition poke :: "nat \<Rightarrow> char \<Rightarrow> buffer \<Rightarrow> buffer" where
  "poke i c b = (if i < length b then b[i := c] else b @ replicate (i - length b) NUL @ [c])"

definition cstr :: "nat \<Rightarrow> buffer \<Rightarrow> string" where
  "cstr p b = takeWhile (\<lambda>c. c \<noteq> NUL) (drop p b)"

definition strlen :: "nat \<Rightarrow> buffer \<Rightarrow> nat" where
  "strlen p b = length (cstr p b)"

text \<open>
  \<^verbatim>\<open>fgets(cline, n, f)\<close> takes the characters up to and with the first newline, at most
  \<open>n - 1\<close> of them, and stores them followed by a NUL.
\<close>

definition fgets_line :: "int \<Rightarrow> string \<Rightarrow> string" where
  "fgets_line n content =
     take (nat (min (n - 1) (1 + int (length (takeWhile (\<lambda>c. c \<noteq> CHR 0x0A) content))))) content"

definition store_line :: "string \<Rightarrow> buffer \<Rightarrow> buffer" where
  "store_line l b = l @ NUL # drop (Suc (length l)) b"

lemma fgets_line_nonempty: "content \<noteq> [] \<Longrightarrow> fgets_line 65534 content \<noteq> []"
  by (cases content) (simp_all add: fgets_line_def)

function config_lines :: "string \<Rightarrow> string list" where
  "config_lines content =
     (if content = [] then []
      else fgets_line 65534 content # config_lines (drop (length (fgets_line 65534 content)) content))"
  by pat_completeness auto
termination
proof (relation "measure length")
  show "wf (measure length)" by simp
next
  fix content :: string
  assume "content \<noteq> []"
  then have "fgets_line 65534 content \<noteq> []" by (rule fgets_line_nonempty)
  with \<open>content \<noteq> []\<close> show "(drop (length (fgets_line 65534 content)) content, content) \<in> measure length"
    by (cases content) simp_all
qed

declare config_lines.simps [simp del]

subsection \<open>The functions trim, \<^verbatim>\<open>sa_strcmp\<close> and atoi\<close>

definition is_blank :: "char \<Rightarrow> bool" where
  "is_blank c = (c = CHR 0x09 \<or> c = CHR 0x0A \<or> c = CHR 0x0D \<or> c = CHR '' '' \<or> c = CHR 0x09)"

text \<open>
  The last loop of \<^verbatim>\<open>trim\<close>: from index \<open>i\<close> down to 1, the first cell that is not
  blank gets a NUL after it.
\<close>

fun trim_back :: "nat \<Rightarrow> nat \<Rightarrow> buffer \<Rightarrow> buffer" where
  "trim_back p 0 b = b"
| "trim_back p (Suc i) b =
     (if is_blank (peek b (p + Suc i)) then trim_back p i b
      else poke (p + Suc i + 1) NUL b)"

text \<open>
  \<^verbatim>\<open>trim(cline + p)\<close>. \<open>textstart\<close> is the number of leading blanks, when a
  character follows them. The second loop moves the text to the front; the third starts
  at the last index of the string as it was before the move.
\<close>

definition trim :: "nat \<Rightarrow> buffer \<Rightarrow> buffer" where
  "trim p b =
     (let len = strlen p b;
          textstart = length (takeWhile is_blank (cstr p b))
      in if textstart = len then poke p NUL b
         else
           let b1 = (if textstart > 0
                     then poke (p + (len - textstart)) NUL
                            (fold (\<lambda>i b'. poke (p + i) (peek b' (p + i + textstart)) b')
                               [0..<len - textstart] b)
                     else b)
           in trim_back p (len - 1) b1)"

text \<open>
  \<^verbatim>\<open>sa_strcmp\<close> compares up to the end of the shorter string and ignores the case of
  letters. The program only tests its result against 0; the difference of two characters
  is that of their codes.
\<close>

fun sa_strcmp :: "string \<Rightarrow> string \<Rightarrow> int" where
  "sa_strcmp (a # s1) (b # s2) =
     (let diff = int (of_char a) - int (of_char b)
      in if diff = 0
            \<or> (diff = 32 \<and> (97::nat) \<le> of_char a \<and> of_char a \<le> (122::nat))
            \<or> (diff = - 32 \<and> (65::nat) \<le> of_char a \<and> of_char a \<le> (90::nat))
         then sa_strcmp s1 s2
         else diff)"
| "sa_strcmp s1 s2 = 0"

text \<open>The C library's \<^verbatim>\<open>atoi\<close>: blanks, an optional sign, then decimal digits.\<close>

definition is_space :: "char \<Rightarrow> bool" where
  "is_space c = (c = CHR '' '' \<or> ((9::nat) \<le> of_char c \<and> of_char c \<le> (13::nat)))"

definition is_digit :: "char \<Rightarrow> bool" where
  "is_digit c = ((48::nat) \<le> of_char c \<and> of_char c \<le> (57::nat))"

definition digit_val :: "char \<Rightarrow> int" where
  "digit_val c = int (of_char c) - 48"

fun atoi_digits :: "int \<Rightarrow> string \<Rightarrow> int" where
  "atoi_digits acc [] = acc"
| "atoi_digits acc (c # cs) =
     (if is_digit c then atoi_digits (acc * 10 + digit_val c) cs else acc)"

definition atoi :: "string \<Rightarrow> int" where
  "atoi s =
     (case dropWhile is_space s of
        [] \<Rightarrow> 0
      | c # cs \<Rightarrow>
          if c = CHR ''-'' then - atoi_digits 0 cs
          else if c = CHR ''+'' then atoi_digits 0 cs
          else atoi_digits 0 (c # cs))"

subsection \<open>RefreshConfig\<close>

text \<open>
  What one call of \<^verbatim>\<open>RefreshConfig\<close> finds outside the process: the content of
  \<^verbatim>\<open>./configsum\<close> after the \<^verbatim>\<open>sha256sum\<close> command has run (\<open>None\<close> when the file
  cannot be opened), the content of the configuration file (\<open>None\<close> when it cannot be
  opened), and the bytes that are in the uninitialised array \<^verbatim>\<open>cline\<close>.
\<close>

record world =
  configsum :: "string option"
  conffile :: "string option"
  cline0 :: buffer

text \<open>
  The result of a step that can end the process: \<open>Inl n\<close> is \<^verbatim>\<open>exit(n)\<close>, \<open>Inr\<close>
  carries on with the buffer and the state. \<open>key_at p b k\<close> is the test
  \<^verbatim>\<open>sa_strcmp(cline + p, k) == 0\<close>, and \<open>trim2 p\<close> the pair of calls
  \<^verbatim>\<open>trim(cline + p); trim(cline + p + 1)\<close> that every key makes.
\<close>

type_synonym parse_result = "int + (buffer \<times> main_state)"

definition key_at :: "nat \<Rightarrow> buffer \<Rightarrow> string \<Rightarrow> bool" where
  "key_at p b k = (sa_strcmp (cstr p b) k = 0)"

definition trim2 :: "nat \<Rightarrow> buffer \<Rightarrow> buffer" where
  "trim2 p b = trim (Suc p) (trim p b)"

definition set_switch :: "nat \<Rightarrow> (FloatSwitch \<Rightarrow> FloatSwitch) \<Rightarrow> main_state \<Rightarrow> main_state" where
  "set_switch ID f st =
     st\<lparr>cd := (cd st)\<lparr>switchlist := (switchlist (cd st))(ID := f (switchlist (cd st) ID))\<rparr>\<rparr>"

text \<open>
  The lines that start with \<^verbatim>\<open>Switch\<close>. The tests for the \<^verbatim>\<open>On\<close> and \<^verbatim>\<open>Off\<close>
  actions read the value at the offset of a one-digit switch number, as the source does,
  and copy it from the offset that counts the digits.
\<close>

definition switch_line :: "bool \<Rightarrow> buffer \<Rightarrow> main_state \<Rightarrow> parse_result" where
  "switch_line initial b st =
     (if \<not> is_digit (peek b 6) then Inr (b, st)
      else
        let ID0 = nat (digit_val (peek b 6));
            ID = (if is_digit (peek b 7) then ID0 * 10 + nat (digit_val (peek b 7)) else ID0);
            digits = (if ID > 9 then 2 else 1)
        in
          if key_at (6 + digits) b ''Level'' then
            (let b1 = trim2 (11 + digits) b
             in Inr (b1, set_switch ID (\<lambda>s. s\<lparr>level := atoi (cstr (12 + digits) b1)\<rparr>) st))
          else if key_at (6 + digits) b ''Pin'' then
            (if \<not> initial then Inr (b, st)
             else
               let b1 = trim2 (9 + digits) b;
                   p = atoi (cstr (10 + digits) b1)
               in if p \<noteq> 0
                  then Inr (b1, set_switch ID (\<lambda>s. s\<lparr>pin := p, initialized := 1\<rparr>) st)
                  else Inl 1)
          else if key_at (6 + digits) b ''Bounce'' then
            (let b1 = trim2 (12 + digits) b
             in Inr (b1, set_switch ID (\<lambda>s. s\<lparr>bouncedelay := atoi (cstr (13 + digits) b1)\<rparr>) st))
          else if key_at (6 + digits) b ''On'' then
            (let b1 = trim2 (8 + digits) b
             in if strlen 9 b1 \<le> 0 then Inr (b1, st)
                else if OnAction (switchlist (cd st) ID) = Some (cstr 9 b1) then Inr (b1, st)
                else Inr (b1, set_switch ID (\<lambda>s. s\<lparr>OnAction := Some (cstr (9 + digits) b1)\<rparr>) st))
          else if key_at (6 + digits) b ''Off'' then
            (let b1 = trim2 (9 + digits) b
             in if strlen 10 b1 \<le> 0 then Inr (b1, st)
                else if OffAction (switchlist (cd st) ID) = Some (cstr 10 b1) then Inr (b1, st)
                else Inr (b1, set_switch ID (\<lambda>s. s\<lparr>OffAction := Some (cstr (10 + digits) b1)\<rparr>) st))
          else Inr (b, st))"

text \<open>
  The body of the \<^verbatim>\<open>while\<close> loop for one line that \<^verbatim>\<open>fgets\<close> has stored in the
  buffer; the keys are tried in the order of the source.
\<close>

definition process_line :: "bool \<Rightarrow> buffer \<Rightarrow> main_state \<Rightarrow> parse_result" where
  "process_line initial b0 st =
     (let b = trim 0 b0 in
      if strlen 0 b < 1 then Inr (b, st)
      else if peek b 0 = CHR ''#'' then Inr (b, st)
      else if key_at 0 b ''LogLevel'' then
        (let b1 = trim2 8 b; l = atoi (cstr 9 b1)
         in Inr (b1, st\<lparr>LogLevel := (if l > 3 \<or> l < 0 then 3 else l)\<rparr>))
      else if key_at 0 b ''LogFile'' then
        (let b1 = trim2 7 b in Inr (b1, st\<lparr>LogFileName := take 999 (cstr 8 b1)\<rparr>))
      else if key_at 0 b ''SumpDepth'' then
        (if \<not> initial then Inr (b, st)
         else let b1 = trim2 9 b
              in Inr (b1, st\<lparr>cd := (cd st)\<lparr>sumpdepth := atoi (cstr 10 b1)\<rparr>\<rparr>))
      else if key_at 0 b ''SumpDiameter'' then
        (if \<not> initial then Inr (b, st)
         else let b1 = trim2 12 b
              in Inr (b1, st\<lparr>cd := (cd st)\<lparr>sumpdiameter := atoi (cstr 13 b1)\<rparr>\<rparr>))
      else if key_at 0 b ''LowWater'' then
        (if \<not> initial then Inr (b, st)
         else let b1 = trim2 8 b
              in Inr (b1, st\<lparr>cd := (cd st)\<lparr>lowwater := atoi (cstr 9 b1)\<rparr>\<rparr>))
      else if key_at 0 b ''HighWater'' then
        (if \<not> initial then Inr (b, st)
         else let b1 = trim2 9 b
              in Inr (b1, st\<lparr>cd := (cd st)\<lparr>highwater := atoi (cstr 10 b1)\<rparr>\<rparr>))
      else if key_at 0 b ''RateChangeAmt'' then
        (let b1 = trim2 13 b
         in Inr (b1, st\<lparr>cd := (cd st)\<lparr>ratechangeamt := atoi (cstr 14 b1)\<rparr>\<rparr>))
      else if key_at 0 b ''OverdueThreshold'' then
        (let b1 = trim2 16 b
         in Inr (b1, st\<lparr>cd := (cd st)\<lparr>overduethreshold := atoi (cstr 17 b1)\<rparr>\<rparr>))
      else if key_at 0 b ''RateChange'' then
        (let b1 = trim2 10 b
         in if strlen 11 b1 \<le> 0 then Inr (b1, st)
            else if ratechange (cd st) = Some (cstr 11 b1) then Inr (b1, st)
            else Inr (b1, st\<lparr>cd := (cd st)\<lparr>ratechange := Some (cstr 11 b1)\<rparr>\<rparr>))
      else if key_at 0 b ''Overdue'' \<and> \<not> key_at 0 b ''OverdueT'' then
        (let b1 = trim2 7 b
         in if strlen 8 b1 \<le> 0 then Inr (b1, st)
            else if overdue (cd st) = Some (cstr 8 b1) then Inr (b1, st)
            else Inr (b1, st\<lparr>cd := (cd st)\<lparr>overdue := Some (cstr 8 b1)\<rparr>\<rparr>))
      else if key_at 0 b ''Switch'' then switch_line initial b st
      else Inr (b, st))"

fun read_config :: "bool \<Rightarrow> string list \<Rightarrow> buffer \<Rightarrow> main_state \<Rightarrow> parse_result" where
  "read_config initial [] b st = Inr (b, st)"
| "read_config initial (l # ls) b st =
     (case process_line initial (store_line l b) st of
        Inl n \<Rightarrow> Inl n
      | Inr bs \<Rightarrow> read_config initial ls (fst bs) (snd bs))"

definition compute_capacity :: "ConfigData \<Rightarrow> int" where
  "compute_capacity c =
     double_to_int
       ((314159265 / 100000000 * (of_int (sumpdiameter c) / 20) * (of_int (sumpdiameter c) / 20)
          * (of_int (sumpdepth c) / 10))
        / 1000)"

text \<open>
  The buffer after \<^verbatim>\<open>fgets(cline, 64, check); cline[64] = 0\<close>: an empty checksum file
  leaves the bytes that were in the array.
\<close>

definition read_checksum :: "string \<Rightarrow> buffer \<Rightarrow> buffer" where
  "read_checksum content b0 =
     poke 64 NUL (if content = [] then b0 else store_line (fgets_line 64 content) b0)"

text \<open>
  \<^verbatim>\<open>RefreshConfig(cd, initial)\<close>. Both branches return when \<^verbatim>\<open>./configsum\<close> cannot be
  opened; the reload returns when the checksum read equals \<^verbatim>\<open>hash\<close>; both copy the
  checksum read into \<^verbatim>\<open>hash\<close> and only then open the configuration file, which
  \<open>load_config\<close> reads line by line before it sets the capacity.
\<close>

definition load_config :: "bool \<Rightarrow> world \<Rightarrow> buffer \<Rightarrow> main_state \<Rightarrow> int + main_state" where
  "load_config initial w b st =
     (case conffile w of
        None \<Rightarrow> (if initial then Inl 1 else Inr st)
      | Some conf \<Rightarrow>
          (case read_config initial (config_lines conf) b st of
             Inl n \<Rightarrow> Inl n
           | Inr bs \<Rightarrow>
               Inr ((snd bs)\<lparr>cd := (cd (snd bs))\<lparr>capacity := compute_capacity (cd (snd bs))\<rparr>\<rparr>)))"

definition RefreshConfig :: "bool \<Rightarrow> world \<Rightarrow> main_state \<Rightarrow> int + main_state" where
  "RefreshConfig initial w st =
     (case configsum w of
        None \<Rightarrow> Inr st
      | Some content \<Rightarrow>
          (let b = read_checksum content (cline0 w)
           in if \<not> initial \<and> hash st = cstr 0 b then Inr st
              else load_config initial w b (st\<lparr>hash := cstr 0 b\<rparr>)))"

subsection \<open>The polling loop of main\<close>

text \<open>
  \<^verbatim>\<open>bcm2835_gpio_lev\<close> belongs to the GPIO library: it returns \<^verbatim>\<open>HIGH\<close> or \<^verbatim>\<open>LOW\<close>
  for the level of a pin. The levels of the pins at one tick are a parameter.
\<close>

definition bcm2835_gpio_lev :: "(int \<Rightarrow> bool) \<Rightarrow> int \<Rightarrow> int" where
  "bcm2835_gpio_lev g p = (if g p then HIGH else LOW)"

text \<open>
  The comparison of the rate-change detector,
  \<^verbatim>\<open>rat > 1.0 + (double)amt/100 || rat < 1.0 - (double)amt/100\<close> for
  \<^verbatim>\<open>rat = (double)lastfreq / (double)freq\<close>. The conversions of the \<^verbatim>\<open>int\<close>
  values are exact; the division, the division by 100, the sum and the difference are
  each rounded to a \<^verbatim>\<open>double\<close>. A nonzero number divided by zero is an infinity,
  which is outside every band; zero divided by zero compares false.
\<close>

definition ratio_exceeds :: "int \<Rightarrow> int \<Rightarrow> int \<Rightarrow> bool" where
  "ratio_exceeds lf f amt =
     (if f = 0 then lf \<noteq> 0
      else
        let rat = to_double (of_int lf / of_int f);
            band = to_double (of_int amt / 100)
        in rat > to_double (1 + band) \<or> rat < to_double (1 - band))"

text \<open>
  The rate-change detector: the statements under
  \<^verbatim>\<open>if (ID==0 && cd.freq!=0 && cd.ratechange!=NULL)\<close>. The division of the second
  branch sets \<open>fe_divbyzero\<close> when its divisor is zero.
\<close>

definition rate_change :: "main_state \<Rightarrow> main_state" where
  "rate_change st =
     (let c = cd st; s0 = switchlist c 0 in
      if lastfreq s0 = 0 then
        (let z = fold (\<lambda>i z. if freq s0 i = 0 then z + 1 else z) [0..<FREQ_HISTORY] (0::int)
         in if z = 0
            then set_switch 0 (\<lambda>s. s\<lparr>lastfreq := cd_freq c\<rparr>)
                   (Action RateChangeSite (ratechange c) st)
            else st)
      else
        (let st1 = st\<lparr>fe_divbyzero := (fe_divbyzero st \<or> cd_freq c = 0)\<rparr>
         in if ratio_exceeds (lastfreq s0) (cd_freq c) (ratechangeamt c)
            then set_switch 0 (\<lambda>s. s\<lparr>lastfreq := cd_freq c\<rparr>)
                   (Action RateChangeSite (ratechange c) st1)
            else st1))"

text \<open>An accepted change of switch \<open>ID\<close> to On, after the bounce test.\<close>

definition switch_on :: "int \<Rightarrow> nat \<Rightarrow> main_state \<Rightarrow> main_state" where
  "switch_on t ID st =
     (let sw = switchlist (cd st) ID;
          a1 = fold (\<lambda>i a. a(i := a (i + 1))) [0..<FREQ_HISTORY - 1] (freq sw);
          a2 = (if LastOn sw \<noteq> 0 then a1(FREQ_HISTORY - 1 := t - LastOn sw) else a1);
          st1 = set_switch ID (\<lambda>s. s\<lparr>state := HIGH, freq := a2, LastOn := t\<rparr>) st;
          st2 = st1\<lparr>cd := (cd st1)\<lparr>cd_freq := GetFrequency (switchlist (cd st1) 0)\<rparr>\<rparr>;
          st3 = st2\<lparr>environ := SetEnvironment (switchlist (cd st2) 0) (cd st2) (environ st2)\<rparr>;
          st4 = Action (SwitchOnSite ID) (OnAction (switchlist (cd st3) ID)) st3
      in if ID = 0 \<and> cd_freq (cd st4) \<noteq> 0 \<and> ratechange (cd st4) \<noteq> None
         then rate_change st4 else st4)"

text \<open>An accepted change of switch \<open>ID\<close> to Off; \<open>lv\<close> is the level read.\<close>

definition switch_off :: "int \<Rightarrow> int \<Rightarrow> nat \<Rightarrow> main_state \<Rightarrow> main_state" where
  "switch_off t lv ID st =
     (let st1 = (if ID = 0 then st\<lparr>overduenotice := False\<rparr> else st);
          st2 = set_switch ID (\<lambda>s. s\<lparr>state := lv, LastOff := t\<rparr>) st1;
          st3 = st2\<lparr>environ := SetEnvironment (switchlist (cd st2) 0) (cd st2) (environ st2)\<rparr>
      in Action (SwitchOffSite ID) (OffAction (switchlist (cd st3) ID)) st3)"

text \<open>
  The body of the loop over the switches, for one \<open>ID\<close>. Each \<^verbatim>\<open>continue\<close> of the
  source leaves the state as it is.
\<close>

definition switch_step :: "int \<Rightarrow> (int \<Rightarrow> bool) \<Rightarrow> nat \<Rightarrow> main_state \<Rightarrow> main_state" where
  "switch_step t g ID st =
     (let sw = switchlist (cd st) ID in
      if initialized sw = 0 then st
      else
        let lv = bcm2835_gpio_lev g (pin sw) in
        if lv = state sw then st
        else if lv = HIGH then
          (if t - LastOff sw < bouncedelay sw then st else switch_on t ID st)
        else
          (if t - LastOff sw < bouncedelay sw then st else switch_off t lv ID st))"

text \<open>The overdue test at the head of the loop body.\<close>

definition overdue_check :: "int \<Rightarrow> main_state \<Rightarrow> main_state" where
  "overdue_check t st =
     (if state (switchlist (cd st) 0) = HIGH \<and> overduenotice st = False then
        (let freqtemp = GetFrequency (switchlist (cd st) 0)
         in if t - LastOff (switchlist (cd st) 0) \<ge> freqtemp + overduethreshold (cd st)
               \<and> freqtemp \<noteq> 0
            then Action OverdueSite (overdue (cd st)) (st\<lparr>overduenotice := True\<rparr>)
            else st)
      else st)"

text \<open>The check of the configuration file, every three minutes.\<close>

definition config_check :: "int \<Rightarrow> world \<Rightarrow> main_state \<Rightarrow> int + main_state" where
  "config_check t w st =
     (if t - LastConfigCheck st > 180
      then RefreshConfig False w (st\<lparr>LastConfigCheck := t\<rparr>)
      else Inr st)"

text \<open>
  One pass of the \<^verbatim>\<open>while\<close> loop: what \<^verbatim>\<open>time\<close> returns, the levels of the pins
  and the files found at that moment are its input. \<open>run\<close> is the loop over the passes
  made before the process is told to terminate.
\<close>

record tick_input =
  now :: int
  gpio :: "int \<Rightarrow> bool"
  files :: world

definition tick :: "tick_input \<Rightarrow> main_state \<Rightarrow> int + main_state" where
  "tick inp st =
     (case config_check (now inp) (files inp) (overdue_check (now inp) st) of
        Inl n \<Rightarrow> Inl n
      | Inr st1 \<Rightarrow> Inr (fold (switch_step (now inp) (gpio inp)) [0..<100] st1))"

fun run :: "tick_input list \<Rightarrow> main_state \<Rightarrow> int + main_state" where
  "run [] st = Inr st"
| "run (inp # inps) st =
     (case tick inp st of
        Inl n \<Rightarrow> Inl n
      | Inr st' \<Rightarrow> run inps st')"

subsection \<open>The start of main\<close>

definition initial_switch :: FloatSwitch where
  "initial_switch =
     \<lparr>initialized = 0, level = 0, pin = 0, OnAction = None, OffAction = None,
      freq = (\<lambda>i. 0), lastfreq = 0, state = 0, LastOn = 0, LastOff = 0,
      bouncedelay = BOUNCEDELAY\<rparr>"

text \<open>
  \<^verbatim>\<open>main\<close> assigns every field of \<^verbatim>\<open>cd\<close> but \<^verbatim>\<open>capacity\<close>, \<^verbatim>\<open>vol\<close>, \<^verbatim>\<open>rate\<close>
  and \<^verbatim>\<open>freq\<close>, which keep what the uninitialised record \<open>u\<close> holds.
\<close>

definition initial_cd :: "ConfigData \<Rightarrow> ConfigData" where
  "initial_cd u =
     u\<lparr>sumpdepth := 0, sumpdiameter := 0, lowwater := 0, highwater := 0,
       ratechange := None, ratechangeamt := 0, overduethreshold := 0, overdue := None,
       switchlist := (\<lambda>ID. initial_switch)\<rparr>"

definition read_initial_state :: "(int \<Rightarrow> bool) \<Rightarrow> nat \<Rightarrow> main_state \<Rightarrow> main_state" where
  "read_initial_state g ID st =
     (if initialized (switchlist (cd st) ID) \<noteq> 0
      then set_switch ID (\<lambda>s. s\<lparr>state := bcm2835_gpio_lev g (pin s)\<rparr>) st
      else st)"

text \<open>
  \<^verbatim>\<open>main\<close> up to the loop: \<open>gpio_ok\<close> is the result of \<^verbatim>\<open>bcm2835_init\<close>, \<open>t0\<close> the
  time read into \<^verbatim>\<open>LastConfigCheck\<close>, \<open>e\<close> the environment the process starts with.
\<close>

definition startup :: "bool \<Rightarrow> ConfigData \<Rightarrow> int \<Rightarrow> env \<Rightarrow> world \<Rightarrow> (int \<Rightarrow> bool) \<Rightarrow> int + main_state" where
  "startup gpio_ok u t0 e w g =
     (if \<not> gpio_ok then Inl 2
      else
        case RefreshConfig True w
               \<lparr>cd = initial_cd u, overduenotice = False, LastConfigCheck = t0, hash = [],
                LogLevel = 3, LogFileName = ''/var/log/sumpalarm.log'', environ = e,
                dispatched = [], fe_divbyzero = False\<rparr> of
          Inl n \<Rightarrow> Inl n
        | Inr st \<Rightarrow>
            if initialized (switchlist (cd st) 0) = 0 then Inl 1
            else Inr (fold (read_initial_state g) [0..<100] st))"

subsection \<open>What a reload leaves alone\<close>

text \<open>
  The fields of a switch that hold its runtime state and its pin binding, and the part of
  the process state that is not a hot-reloadable setting: every switch's runtime fields,
  the geometry, the scratch fields of \<^verbatim>\<open>cd\<close> and the locals of \<^verbatim>\<open>main\<close>.
  \<open>frame_ok st r\<close> says that a parsing step went on, to a state with that part as in
  \<open>st\<close>.
\<close>

definition same_runtime :: "FloatSwitch \<Rightarrow> FloatSwitch \<Rightarrow> bool" where
  "same_runtime s s' =
     (state s' = state s \<and> LastOn s' = LastOn s \<and> LastOff s' = LastOff s
      \<and> freq s' = freq s \<and> lastfreq s' = lastfreq s
      \<and> pin s' = pin s \<and> initialized s' = initialized s)"

definition reload_frame :: "main_state \<Rightarrow> main_state \<Rightarrow> bool" where
  "reload_frame st st' =
     ((\<forall>ID. same_runtime (switchlist (cd st) ID) (switchlist (cd st') ID))
      \<and> sumpdepth (cd st') = sumpdepth (cd st)
      \<and> sumpdiameter (cd st') = sumpdiameter (cd st)
      \<and> lowwater (cd st') = lowwater (cd st)
      \<and> highwater (cd st') = highwater (cd st)
      \<and> vol (cd st') = vol (cd st)
      \<and> rate (cd st') = rate (cd st)
      \<and> cd_freq (cd st') = cd_freq (cd st)
      \<and> overduenotice st' = overduenotice st
      \<and> LastConfigCheck st' = LastConfigCheck st
      \<and> environ st' = environ st
      \<and> dispatched st' = dispatched st
      \<and> fe_divbyzero st' = fe_divbyzero st)"

definition frame_ok :: "main_state \<Rightarrow> parse_result \<Rightarrow> bool" where
  "frame_ok st r = (\<exists>b' st'. r = Inr (b', st') \<and> reload_frame st st')"

subsection \<open>Notices, the overdue condition and an episode\<close>

text \<open>
  \<open>sw0\<close> is switch 0, and \<open>notices k\<close> the commands dispatched so far from the call of
  \<^verbatim>\<open>Action\<close> at site \<open>k\<close>. \<open>overdue_due t\<close> is the specification's overdue condition
  at time \<open>t\<close>: the frequency estimate is not 0 and the time since the last Off is at
  least the estimate plus the threshold.
\<close>

definition sw0 :: "main_state \<Rightarrow> FloatSwitch" where
  "sw0 st = switchlist (cd st) 0"

definition notices :: "site \<Rightarrow> main_state \<Rightarrow> event list" where
  "notices k st = filter (\<lambda>e. event_site e = k) (dispatched st)"

definition overdue_due :: "int \<Rightarrow> main_state \<Rightarrow> bool" where
  "overdue_due t st =
     (GetFrequency (switchlist (cd st) 0) \<noteq> 0
      \<and> t - LastOff (switchlist (cd st) 0)
            \<ge> GetFrequency (switchlist (cd st) 0) + overduethreshold (cd st))"

text \<open>
  A run of passes throughout which switch 0 is On: after each of them its state is
  \<^verbatim>\<open>HIGH\<close>, so none of them has accepted a change to Off.
\<close>

fun stays_on :: "tick_input list \<Rightarrow> main_state \<Rightarrow> bool" where
  "stays_on [] st = True"
| "stays_on (inp # inps) st =
     (case tick inp st of
        Inl n \<Rightarrow> False
      | Inr st' \<Rightarrow> state (sw0 st') = HIGH \<and> stays_on inps st')"

subsection \<open>Sample inputs\<close>

text \<open>
  Concrete values on which the theorems are evaluated. The geometry is that of the
  configuration example in the source: depth 760, diameter 510, water marks 114 and 222.
  Switch 0 is on pin 14, went Off at time 1000 and On at 1050, and its history holds four
  intervals of 100 seconds; the overdue threshold is 20 seconds.
\<close>

definition sample_switch0 :: FloatSwitch where
  "sample_switch0 =
     \<lparr>initialized = 1, level = 200, pin = 14, OnAction = Some ''on0'', OffAction = Some ''off0'',
      freq = history [100, 100, 100, 100], lastfreq = 0, state = HIGH, LastOn = 1050,
      LastOff = 1000, bouncedelay = 5\<rparr>"

definition sample_cd :: ConfigData where
  "sample_cd =
     \<lparr>sumpdepth = 760, sumpdiameter = 510, lowwater = 114, highwater = 222, capacity = 155,
      vol = 0, rate = 0, cd_freq = 100, ratechangeamt = 20, ratechange = Some ''rc'',
      switchlist = (\<lambda>ID. initial_switch)(0 := sample_switch0),
      overduethreshold = 20, overdue = Some ''alarm''\<rparr>"

definition sample_state :: main_state where
  "sample_state =
     \<lparr>cd = sample_cd, overduenotice = False, LastConfigCheck = 1100,
      hash = ''0f1e2d3c4b5a69788796a5b4c3d2e1f00f1e2d3c4b5a69788796a5b4c3d2e1f'',
      LogLevel = 3, LogFileName = ''/var/log/sumpalarm.log'', environ = [],
      dispatched = [], fe_divbyzero = False\<rparr>"

text \<open>Switch 0 Off since time 1090, with the same history and no baseline.\<close>

definition sample_low :: main_state where
  "sample_low = set_switch 0 (\<lambda>s. s\<lparr>state := LOW, LastOff := 1090\<rparr>) sample_state"

definition pin14_high :: "int \<Rightarrow> bool" where
  "pin14_high p = (p = 14)"

definition no_files :: world where
  "no_files = \<lparr>configsum = None, conffile = None, cline0 = []\<rparr>"

definition pin14_low :: "int \<Rightarrow> bool" where
  "pin14_low p = False"

text \<open>
  Switch 0 Off and never seen On (an empty history), with a baseline of 77; the sample
  state with no overdue action; and the input of one pass.
\<close>

definition fresh_state :: main_state where
  "fresh_state =
     set_switch 0 (\<lambda>s. s\<lparr>state := LOW, freq := history [], LastOn := 0, lastfreq := 77\<rparr>)
       sample_state"

definition unconfigured_state :: main_state where
  "unconfigured_state = sample_state\<lparr>cd := sample_cd\<lparr>overdue := None\<rparr>\<rparr>"

text \<open>The same state with the last check of the configuration at time 900.\<close>

definition early_check_state :: main_state where
  "early_check_state = unconfigured_state\<lparr>LastConfigCheck := 900\<rparr>"

definition at_time :: "int \<Rightarrow> (int \<Rightarrow> bool) \<Rightarrow> world \<Rightarrow> tick_input" where
  "at_time t g w = \<lparr>now = t, gpio = g, files = w\<rparr>"

text \<open>
  The line \<^verbatim>\<open>sha256sum\<close> writes for a digest; a digest other than the one in
  \<open>sample_state\<close>; and three states of the files: the new digest with a configuration
  file that cannot be opened, with one that sets the bounce delay of switch 0 to 9, and
  with one that sets the overdue action.
\<close>

definition sum_line :: "string \<Rightarrow> string" where
  "sum_line digest = digest @ ''  /etc/sumpalarm.conf'' @ [CHR 0x0A]"

definition new_digest :: string where
  "new_digest = ''a0b1c2d3e4f5061728394a5b6c7d8e9fa0b1c2d3e4f5061728394a5b6c7d8e9f''"

definition unreadable_world :: world where
  "unreadable_world = \<lparr>configsum = Some (sum_line new_digest), conffile = None, cline0 = []\<rparr>"

definition restored_world :: world where
  "restored_world =
     \<lparr>configsum = Some (sum_line new_digest),
      conffile = Some (''Switch0Bounce=9'' @ [CHR 0x0A]), cline0 = []\<rparr>"

definition overdue_world :: world where
  "overdue_world =
     \<lparr>configsum = Some (sum_line new_digest),
      conffile = Some (''Overdue=alarm'' @ [CHR 0x0A]), cline0 = []\<rparr>"

text \<open>
  The sample configuration with a frequency of -150 (the clock was set back between two
  activations), and with the two water marks exchanged.
\<close>

definition backwards_cd :: ConfigData where
  "backwards_cd = sample_cd\<lparr>cd_freq := - 150\<rparr>"

definition swapped_cd :: ConfigData where
  "swapped_cd = sample_cd\<lparr>cd_freq := 150, lowwater := 222, highwater := 114\<rparr>"

section \<open>Properties\<close>

subsection \<open>The frequency estimate\<close>

lemma upt_FREQ_HISTORY: "[0..<FREQ_HISTORY] = [0, 1, 2, 3]"
  by (simp add: FREQ_HISTORY_def upt_rec)

lemma GetFrequency_unfold:
  "GetFrequency s =
     (let a = freq s;
          f = a 0 + a 1 + a 2 + a 3;
          z = (if a 0 = 0 then 1 else 0) + (if a 1 = 0 then 1 else 0)
            + (if a 2 = 0 then 1 else 0) + (if a 3 = 0 then 1 else (0::int))
      in if z \<noteq> 4 then c_div f (4 - z) else f)"
proof -
  have scan: "fold (GetFrequency_step a) [0..<FREQ_HISTORY] (0, 0) =
      (a 0 + a 1 + a 2 + a 3,
       (if a 0 = 0 then 1 else 0) + (if a 1 = 0 then 1 else 0)
        + (if a 2 = 0 then 1 else 0) + (if a 3 = 0 then 1 else 0))" for a
    by (simp add: upt_FREQ_HISTORY GetFrequency_step_def)
  have four: "int FREQ_HISTORY = 4"
    by (simp add: FREQ_HISTORY_def)
  show ?thesis
    unfolding GetFrequency_def scan four by (simp add: Let_def)
qed

text \<open>
  C4. \<open>GetFrequency\<close> returns the average of the nonzero entries of the four-slot history
  (their sum divided by their number, truncated as C divides), and 0 when all four are
  zero; the histories [0,0,0,0], [100,0,0,0] and [100,200,0,0] give 0, 100 and 150.
\<close>

theorem GetFrequency_is_average_of_nonzero:
  "GetFrequency s =
     (if nonzero_entries (freq s) = [] then 0
      else c_div (sum_list (nonzero_entries (freq s))) (int (length (nonzero_entries (freq s)))))
   \<and> GetFrequency (s\<lparr>freq := history [0, 0, 0, 0]\<rparr>) = 0
   \<and> GetFrequency (s\<lparr>freq := history [100, 0, 0, 0]\<rparr>) = 100
   \<and> GetFrequency (s\<lparr>freq := history [100, 200, 0, 0]\<rparr>) = 150"
proof -
  have "GetFrequency s =
     (if nonzero_entries (freq s) = [] then 0
      else c_div (sum_list (nonzero_entries (freq s))) (int (length (nonzero_entries (freq s)))))"
    unfolding GetFrequency_unfold nonzero_entries_def upt_FREQ_HISTORY
    by (simp add: Let_def add.assoc)
  moreover have "GetFrequency (s\<lparr>freq := history [0, 0, 0, 0]\<rparr>) = 0"
    by (simp add: GetFrequency_unfold history_def)
  moreover have "GetFrequency (s\<lparr>freq := history [100, 0, 0, 0]\<rparr>) = 100"
    by (simp add: GetFrequency_unfold history_def c_div_def)
  moreover have "GetFrequency (s\<lparr>freq := history [100, 200, 0, 0]\<rparr>) = 150"
    by (simp add: GetFrequency_unfold history_def c_div_def)
  ultimately show ?thesis by blast
qed


subsection \<open>The published environment\<close>

lemma getenv_setenv: "getenv (setenv n v e) m = (if m = n then Some v else getenv e m)"
  by (induction e) (auto simp add: getenv_def)

lemma SetEnvironment_getenv:
  "getenv (SetEnvironment s c e) n =
     (if n = ''SATIMELEFTM'' then Some (fmt_d (c_div (SE_timeleft s c) 60))
      else if n = ''SATIMELEFT'' then Some (fmt_d (SE_timeleft s c))
      else if n = ''SARATE'' then Some (fmt_d (SE_rate c))
      else if n = ''SAVOLUME'' then Some (fmt_d (SE_vol s c))
      else if n = ''SAFREQF'' then
        Some (fmt_d (c_div (cd_freq c) 60) @ ''m '' @ fmt_d (c_mod (cd_freq c) 60) @ ''s'')
      else if n = ''SAFREQ'' then Some (fmt_d (cd_freq c))
      else getenv e n)"
  by (simp add: SetEnvironment_def Let_def getenv_setenv)

lemma c_div_abs: "\<bar>c_div x y\<bar> = \<bar>x\<bar> div \<bar>y\<bar>"
proof -
  have "0 \<le> \<bar>x\<bar> div \<bar>y\<bar>"
    by (simp add: div_int_pos_iff)
  then show ?thesis
    by (cases "x = 0"; cases "y = 0") (simp_all add: c_div_def abs_mult abs_sgn_eq)
qed

lemma c_div_sgn: "\<bar>x\<bar> div \<bar>y\<bar> \<noteq> 0 \<Longrightarrow> sgn (c_div x y) = sgn x * sgn y"
proof -
  assume n: "\<bar>x\<bar> div \<bar>y\<bar> \<noteq> 0"
  have "0 \<le> \<bar>x\<bar> div \<bar>y\<bar>"
    by (simp add: div_int_pos_iff)
  with n have "0 < \<bar>x\<bar> div \<bar>y\<bar>" by simp
  then show ?thesis
    by (simp add: c_div_def sgn_mult)
qed

lemma c_div_c_div:
  assumes "r \<noteq> 0"
  shows "c_div (c_div (a * 3600) r) 60 = c_div (a * 60) r"
proof -
  have q: "\<bar>a * 3600\<bar> div \<bar>r\<bar> div 60 = \<bar>a * 60\<bar> div \<bar>r\<bar>"
  proof -
    have "\<bar>a * 3600\<bar> div \<bar>r\<bar> div 60 = \<bar>a * 3600\<bar> div (\<bar>r\<bar> * 60)"
      by (simp add: zdiv_zmult2_eq)
    also have "\<dots> = \<bar>a * 3600\<bar> div (60 * \<bar>r\<bar>)"
      by (simp add: mult.commute)
    also have "\<dots> = \<bar>a * 3600\<bar> div 60 div \<bar>r\<bar>"
      by (simp add: zdiv_zmult2_eq)
    also have "\<bar>a * 3600\<bar> div 60 = \<bar>a * 60\<bar>"
      by (simp add: abs_mult)
    finally show ?thesis .
  qed
  have l: "c_div (c_div (a * 3600) r) 60
      = sgn (c_div (a * 3600) r) * (\<bar>a * 60\<bar> div \<bar>r\<bar>)"
    using q by (simp add: c_div_def [of "c_div (a * 3600) r" 60] c_div_abs)
  show ?thesis
  proof (cases "\<bar>a * 3600\<bar> div \<bar>r\<bar> = 0")
    case True
    then have "\<bar>a * 60\<bar> div \<bar>r\<bar> = 0" using q by simp
    then show ?thesis by (simp add: l) (simp add: c_div_def)
  next
    case False
    then have "sgn (c_div (a * 3600) r) = sgn (a * 3600) * sgn r"
      by (rule c_div_sgn)
    also have "sgn (a * 3600) = sgn (a * 60)"
      by (simp add: sgn_mult)
    finally show ?thesis
      by (simp add: l) (simp add: c_div_def)
  qed
qed

lemma SE_rate_spec:
  "SE_rate c = (if cd_freq c \<noteq> 0 then double_to_int (spec_rate c) else 0)"
  by (simp add: SE_rate_def spec_rate_def crossSectionalArea_def power2_eq_square)

text \<open>
  C7, as the specification states it, has the rate equal to the formula when the frequency
  is positive and 0 otherwise, and the time left equal to its formula when the rate is
  positive and 0 otherwise. The guards of \<^verbatim>\<open>SetEnvironment\<close> are \<^verbatim>\<open>cd.freq != 0\<close>
  and \<^verbatim>\<open>cd.rate == 0\<close>: with a frequency of -150 the published rate is -529, not 0,
  and with the water marks exchanged the rate is negative and the published time left is
  -782, not 0.
\<close>

theorem metrics_negative_counterexample:
  "\<not> cd_freq backwards_cd > 0 \<and> SE_rate backwards_cd = - 529
   \<and> getenv (SetEnvironment sample_switch0 backwards_cd []) ''SARATE'' = Some ''-529''
   \<and> \<not> SE_rate swapped_cd > 0 \<and> SE_timeleft sample_switch0 swapped_cd = - 782
   \<and> getenv (SetEnvironment sample_switch0 swapped_cd []) ''SATIMELEFT'' = Some ''-782''"
  by code_simp

text \<open>
  C7, amended. The rate is the specification's formula, converted to \<^verbatim>\<open>int\<close>, when
  the frequency is not 0, and 0 when it is 0; the time left is
  \<open>(capacity - volume) * 3600 / rate\<close> seconds, which is
  \<open>(capacity - volume) * 60 / rate\<close> minutes, when the rate is not 0, and 0 when it is 0.
  These are the values published as SARATE, SATIMELEFT and SATIMELEFTM.
\<close>

theorem metrics_guard_on_zero:
  "SE_rate c = (if cd_freq c \<noteq> 0 then double_to_int (spec_rate c) else 0)
   \<and> SE_timeleft s c
       = (if SE_rate c \<noteq> 0 then c_div ((capacity c - SE_vol s c) * 3600) (SE_rate c) else 0)
   \<and> c_div (SE_timeleft s c) 60
       = (if SE_rate c \<noteq> 0 then c_div ((capacity c - SE_vol s c) * 60) (SE_rate c) else 0)
   \<and> getenv (SetEnvironment s c e) ''SARATE'' = Some (fmt_d (SE_rate c))
   \<and> getenv (SetEnvironment s c e) ''SATIMELEFT'' = Some (fmt_d (SE_timeleft s c))
   \<and> getenv (SetEnvironment s c e) ''SATIMELEFTM'' = Some (fmt_d (c_div (SE_timeleft s c) 60))"
proof -
  have "c_div (SE_timeleft s c) 60
       = (if SE_rate c \<noteq> 0 then c_div ((capacity c - SE_vol s c) * 60) (SE_rate c) else 0)"
  proof (cases "SE_rate c = 0")
    case True
    then show ?thesis by (simp add: SE_timeleft_def c_div_def)
  next
    case False
    then have "SE_timeleft s c = c_div ((capacity c - SE_vol s c) * 3600) (SE_rate c)"
      by (simp add: SE_timeleft_def)
    with False c_div_c_div [OF False, of "capacity c - SE_vol s c"] show ?thesis
      by simp
  qed
  moreover have "SE_timeleft s c
       = (if SE_rate c \<noteq> 0 then c_div ((capacity c - SE_vol s c) * 3600) (SE_rate c) else 0)"
    by (simp add: SE_timeleft_def)
  moreover note SE_rate_spec [of c]
  moreover have "getenv (SetEnvironment s c e) ''SARATE'' = Some (fmt_d (SE_rate c))"
    "getenv (SetEnvironment s c e) ''SATIMELEFT'' = Some (fmt_d (SE_timeleft s c))"
    "getenv (SetEnvironment s c e) ''SATIMELEFTM'' = Some (fmt_d (c_div (SE_timeleft s c) 60))"
    by (simp_all add: SetEnvironment_getenv)
  ultimately show ?thesis by blast
qed

text \<open>
  C8. The specification has SAFREQM published before each action, beside SAFREQ and
  SAFREQF, and so has the comment at the head of the source. \<^verbatim>\<open>SetEnvironment\<close> leaves
  SAFREQM as it finds it: it sets SAFREQ, SAFREQF, SAVOLUME, SARATE, SATIMELEFT and
  SATIMELEFTM and nothing else, so from an environment without SAFREQM no action sees it.
  In the pass at time 1150 that sees switch 0 go On, the two commands dispatched see
  SAFREQ as 100 and SAFREQF as "1m 40s", and no SAFREQM.
\<close>

theorem SAFREQM_never_set:
  "getenv (SetEnvironment s c e) ''SAFREQM'' = getenv e ''SAFREQM''
   \<and> getenv (SetEnvironment s c []) ''SAFREQM'' = None
   \<and> getenv (SetEnvironment s c e) ''SAFREQ'' = Some (fmt_d (cd_freq c))
   \<and> getenv (SetEnvironment s c e) ''SAFREQF''
       = Some (fmt_d (c_div (cd_freq c) 60) @ ''m '' @ fmt_d (c_mod (cd_freq c) 60) @ ''s'')
   \<and> map fst (SetEnvironment s c [])
       = [''SAFREQ'', ''SAFREQF'', ''SAVOLUME'', ''SARATE'', ''SATIMELEFT'', ''SATIMELEFTM'']
   \<and> (case tick (at_time 1150 pin14_high no_files) sample_low of
         Inl n \<Rightarrow> False
       | Inr st' \<Rightarrow>
           map event_site (dispatched st') = [SwitchOnSite 0, RateChangeSite]
           \<and> map (\<lambda>ev. getenv (event_env ev) ''SAFREQ'') (dispatched st')
               = [Some ''100'', Some ''100'']
           \<and> map (\<lambda>ev. getenv (event_env ev) ''SAFREQF'') (dispatched st')
               = [Some ''1m 40s'', Some ''1m 40s'']
           \<and> map (\<lambda>ev. getenv (event_env ev) ''SAFREQM'') (dispatched st') = [None, None])"
proof -
  have "case tick (at_time 1150 pin14_high no_files) sample_low of
         Inl n \<Rightarrow> False
       | Inr st' \<Rightarrow>
           map event_site (dispatched st') = [SwitchOnSite 0, RateChangeSite]
           \<and> map (\<lambda>ev. getenv (event_env ev) ''SAFREQ'') (dispatched st')
               = [Some ''100'', Some ''100'']
           \<and> map (\<lambda>ev. getenv (event_env ev) ''SAFREQF'') (dispatched st')
               = [Some ''1m 40s'', Some ''1m 40s'']
           \<and> map (\<lambda>ev. getenv (event_env ev) ''SAFREQM'') (dispatched st') = [None, None]"
    by code_simp
  moreover have "map fst (SetEnvironment s c [])
       = [''SAFREQ'', ''SAFREQF'', ''SAVOLUME'', ''SARATE'', ''SATIMELEFT'', ''SATIMELEFTM'']"
    by (simp add: SetEnvironment_def)
  moreover have "getenv [] ''SAFREQM'' = None"
    by (simp add: getenv_def)
  then have "getenv (SetEnvironment s c []) ''SAFREQM'' = None"
    by (simp add: SetEnvironment_getenv)
  ultimately show ?thesis
    by (simp add: SetEnvironment_getenv)
qed

subsection \<open>Reloading the configuration\<close>

lemma reload_frame_refl: "reload_frame st st"
  by (simp add: reload_frame_def same_runtime_def)

lemma reload_frame_trans: "reload_frame a b \<Longrightarrow> reload_frame b c \<Longrightarrow> reload_frame a c"
  by (simp add: reload_frame_def same_runtime_def)

lemma frame_ok_if:
  "(c \<Longrightarrow> frame_ok st x) \<Longrightarrow> (\<not> c \<Longrightarrow> frame_ok st y) \<Longrightarrow> frame_ok st (if c then x else y)"
  by simp

lemma frame_ok_same: "frame_ok st (Inr (b, st))"
  by (simp add: frame_ok_def reload_frame_refl)

lemma frame_ok_set_switch:
  "(\<And>s. same_runtime s (f s)) \<Longrightarrow> frame_ok st (Inr (b, set_switch ID f st))"
  by (simp add: frame_ok_def reload_frame_def set_switch_def same_runtime_def)

lemma frame_ok_level: "frame_ok st (Inr (b, set_switch ID (\<lambda>s. s\<lparr>level := x\<rparr>) st))"
  by (rule frame_ok_set_switch) (simp add: same_runtime_def)

lemma frame_ok_bounce: "frame_ok st (Inr (b, set_switch ID (\<lambda>s. s\<lparr>bouncedelay := x\<rparr>) st))"
  by (rule frame_ok_set_switch) (simp add: same_runtime_def)

lemma frame_ok_on: "frame_ok st (Inr (b, set_switch ID (\<lambda>s. s\<lparr>OnAction := x\<rparr>) st))"
  by (rule frame_ok_set_switch) (simp add: same_runtime_def)

lemma frame_ok_off: "frame_ok st (Inr (b, set_switch ID (\<lambda>s. s\<lparr>OffAction := x\<rparr>) st))"
  by (rule frame_ok_set_switch) (simp add: same_runtime_def)

lemma frame_ok_globals:
  "frame_ok st (Inr (b, st\<lparr>LogLevel := l\<rparr>))"
  "frame_ok st (Inr (b, st\<lparr>LogFileName := n\<rparr>))"
  "frame_ok st (Inr (b, st\<lparr>cd := (cd st)\<lparr>ratechangeamt := x\<rparr>\<rparr>))"
  "frame_ok st (Inr (b, st\<lparr>cd := (cd st)\<lparr>overduethreshold := x\<rparr>\<rparr>))"
  "frame_ok st (Inr (b, st\<lparr>cd := (cd st)\<lparr>ratechange := a\<rparr>\<rparr>))"
  "frame_ok st (Inr (b, st\<lparr>cd := (cd st)\<lparr>overdue := a\<rparr>\<rparr>))"
  by (simp_all add: frame_ok_def reload_frame_def same_runtime_def)

lemma switch_line_reload: "frame_ok st (switch_line False b st)"
  unfolding switch_line_def Let_def
  by (intro frame_ok_if frame_ok_same frame_ok_level frame_ok_bounce frame_ok_on frame_ok_off)
     simp_all

lemma process_line_reload: "frame_ok st (process_line False b st)"
  unfolding process_line_def Let_def
  by (intro frame_ok_if frame_ok_same frame_ok_globals switch_line_reload) simp_all

lemma read_config_reload:
  "\<exists>b' st'. read_config False ls b st = Inr (b', st') \<and> reload_frame st st'"
proof (induction ls arbitrary: b st)
  case Nil
  show ?case by (simp add: reload_frame_refl)
next
  case (Cons l ls)
  obtain b1 st1 where 1: "process_line False (store_line l b) st = Inr (b1, st1)" and f1: "reload_frame st st1"
    using process_line_reload [of st "store_line l b"] by (auto simp: frame_ok_def)
  obtain b2 st2 where 2: "read_config False ls b1 st1 = Inr (b2, st2)" and f2: "reload_frame st1 st2"
    using Cons.IH by blast
  show ?case using 1 2 reload_frame_trans [OF f1 f2] by simp
qed

lemma load_config_reload:
  "\<exists>st'. load_config False w b st = Inr st' \<and> reload_frame st st'"
proof (cases "conffile w")
  case None
  then show ?thesis by (simp add: load_config_def reload_frame_refl)
next
  case (Some conf)
  obtain b2 st2 where 2: "read_config False (config_lines conf) b st = Inr (b2, st2)" and f2: "reload_frame st st2"
    using read_config_reload by blast
  have "reload_frame st2 (st2\<lparr>cd := (cd st2)\<lparr>capacity := compute_capacity (cd st2)\<rparr>\<rparr>)"
    by (simp add: reload_frame_def same_runtime_def)
  with f2 have "reload_frame st (st2\<lparr>cd := (cd st2)\<lparr>capacity := compute_capacity (cd st2)\<rparr>\<rparr>)"
    by (rule reload_frame_trans)
  with Some 2 show ?thesis by (simp add: load_config_def)
qed

lemma RefreshConfig_reload:
  "\<exists>st'. RefreshConfig False w st = Inr st' \<and> reload_frame st st'"
proof (cases "configsum w")
  case None
  then show ?thesis by (simp add: RefreshConfig_def reload_frame_refl)
next
  case (Some content)
  define b where "b = read_checksum content (cline0 w)"
  show ?thesis
  proof (cases "hash st = cstr 0 b")
    case True
    with Some show ?thesis by (simp add: RefreshConfig_def b_def reload_frame_refl)
  next
    case False
    obtain st' where 1: "load_config False w b (st\<lparr>hash := cstr 0 b\<rparr>) = Inr st'"
      and f: "reload_frame (st\<lparr>hash := cstr 0 b\<rparr>) st'"
      using load_config_reload by blast
    have "reload_frame st (st\<lparr>hash := cstr 0 b\<rparr>)"
      by (simp add: reload_frame_def same_runtime_def)
    then have "reload_frame st st'" using f by (rule reload_frame_trans)
    with Some False 1 show ?thesis by (simp add: RefreshConfig_def b_def Let_def)
  qed
qed


text \<open>
  C5. A reload (a call of \<^verbatim>\<open>RefreshConfig\<close> that is not the initial one) returns, and
  for every switch it leaves \<open>state\<close>, \<open>LastOn\<close>, \<open>LastOff\<close>, the history \<open>freq\<close>, the
  baseline \<open>lastfreq\<close>, the pin and the \<open>initialized\<close> mark as they were; the depth, the
  diameter and the low and high water marks are unchanged. What it can overwrite of a
  switch is the level, the bounce delay and the two actions, and of the configuration the
  two thresholds and their actions (with the capacity, set again from the unchanged
  geometry, the log settings and the checksum).
\<close>

theorem reload_overwrites_only_hot_fields:
  "\<exists>st'. RefreshConfig False w st = Inr st'
     \<and> (\<forall>ID. \<exists>l b on off.
           switchlist (cd st') ID
             = (switchlist (cd st) ID)\<lparr>level := l, bouncedelay := b, OnAction := on, OffAction := off\<rparr>)
     \<and> (\<forall>ID. state (switchlist (cd st') ID) = state (switchlist (cd st) ID)
           \<and> LastOn (switchlist (cd st') ID) = LastOn (switchlist (cd st) ID)
           \<and> LastOff (switchlist (cd st') ID) = LastOff (switchlist (cd st) ID)
           \<and> freq (switchlist (cd st') ID) = freq (switchlist (cd st) ID)
           \<and> lastfreq (switchlist (cd st') ID) = lastfreq (switchlist (cd st) ID)
           \<and> pin (switchlist (cd st') ID) = pin (switchlist (cd st) ID)
           \<and> initialized (switchlist (cd st') ID) = initialized (switchlist (cd st) ID))
     \<and> sumpdepth (cd st') = sumpdepth (cd st)
     \<and> sumpdiameter (cd st') = sumpdiameter (cd st)
     \<and> lowwater (cd st') = lowwater (cd st)
     \<and> highwater (cd st') = highwater (cd st)
     \<and> (\<exists>amt rc thr od cap.
           cd st' = (cd st)\<lparr>ratechangeamt := amt, ratechange := rc, overduethreshold := thr,
                             overdue := od, capacity := cap, switchlist := switchlist (cd st')\<rparr>)"
proof -
  obtain st' where r: "RefreshConfig False w st = Inr st'" and f: "reload_frame st st'"
    using RefreshConfig_reload by blast
  have sw: "\<exists>l b on off. switchlist (cd st') ID
             = (switchlist (cd st) ID)\<lparr>level := l, bouncedelay := b, OnAction := on, OffAction := off\<rparr>" for ID
  proof -
    have "switchlist (cd st') ID
        = (switchlist (cd st) ID)\<lparr>level := level (switchlist (cd st') ID),
            bouncedelay := bouncedelay (switchlist (cd st') ID),
            OnAction := OnAction (switchlist (cd st') ID),
            OffAction := OffAction (switchlist (cd st') ID)\<rparr>"
      using f by (simp add: reload_frame_def same_runtime_def)
    then show ?thesis by blast
  qed
  have "cd st' = (cd st)\<lparr>ratechangeamt := ratechangeamt (cd st'), ratechange := ratechange (cd st'),
        overduethreshold := overduethreshold (cd st'), overdue := overdue (cd st'),
        capacity := capacity (cd st'), switchlist := switchlist (cd st')\<rparr>"
    using f by (simp add: reload_frame_def)
  then have c: "\<exists>amt rc thr od cap.
           cd st' = (cd st)\<lparr>ratechangeamt := amt, ratechange := rc, overduethreshold := thr,
                             overdue := od, capacity := cap, switchlist := switchlist (cd st')\<rparr>"
    by blast
  from r f sw c show ?thesis
    by (simp add: reload_frame_def same_runtime_def)
qed

lemma read_new_digest:
  "cstr 0 (read_checksum (sum_line new_digest) []) = take 63 new_digest"
  by (simp add: read_checksum_def sum_line_def new_digest_def fgets_line_def store_line_def
      poke_def cstr_def NUL_def)

lemma reload_unreadable_keeps_snapshot:
  "conffile w = None \<Longrightarrow>
   \<exists>st'. RefreshConfig False w st = Inr st' \<and> cd st' = cd st
     \<and> LogLevel st' = LogLevel st \<and> LogFileName st' = LogFileName st"
  by (simp add: RefreshConfig_def load_config_def Let_def split: option.split)

lemma failed_reload_records_digest: "RefreshConfig False unreadable_world sample_state
      = Inr (sample_state\<lparr>hash := take 63 new_digest\<rparr>)"
proof -
  have "hash sample_state \<noteq> take 63 new_digest"
    by (simp add: sample_state_def new_digest_def)
  then show ?thesis
    by (simp add: RefreshConfig_def unreadable_world_def read_new_digest load_config_def Let_def)
qed

lemma same_digest_is_no_change: "RefreshConfig False restored_world (sample_state\<lparr>hash := take 63 new_digest\<rparr>)
      = Inr (sample_state\<lparr>hash := take 63 new_digest\<rparr>)"
  by (simp add: RefreshConfig_def restored_world_def read_new_digest Let_def)

lemma bounce_line: "config_lines (''Switch0Bounce=9'' @ [CHR 0x0A]) = [''Switch0Bounce=9'' @ [CHR 0x0A]]"
  by (simp add: config_lines.simps fgets_line_def)

lemma reload_would_set_bounce: "\<exists>st'. RefreshConfig False restored_world sample_state = Inr st'
   \<and> bouncedelay (switchlist (cd st') 0) = 9"
proof -
  define B where "B = store_line (''Switch0Bounce=9'' @ [CHR 0x0A]) (read_checksum (sum_line new_digest) [])"
  define S where "S = sample_state\<lparr>hash := cstr 0 (read_checksum (sum_line new_digest) [])\<rparr>"
  obtain b st where p: "process_line False B S = Inr (b, st)"
    using process_line_reload [of S B] by (auto simp: frame_ok_def)
  have "bouncedelay (switchlist (cd (snd (projr (process_line False B S)))) 0) = 9"
    unfolding B_def S_def by code_simp
  with p have 9: "bouncedelay (switchlist (cd st) 0) = 9" by simp
  have "hash sample_state \<noteq> take 63 new_digest"
    by (simp add: sample_state_def new_digest_def)
  then have "RefreshConfig False restored_world sample_state
      = Inr (st\<lparr>cd := (cd st)\<lparr>capacity := compute_capacity (cd st)\<rparr>\<rparr>)"
    using p
    by (simp add: RefreshConfig_def restored_world_def Let_def load_config_def bounce_line [simplified] B_def S_def
        read_new_digest)
  with 9 show ?thesis by simp
qed

text \<open>
  The checksum that a reload reads from a file that is not empty does not depend on what
  the buffer held. So whatever the state and the digest: after a reload that cannot open
  the configuration file, a check that finds the same digest changes nothing.
\<close>

lemma cstr_append_NUL: "cstr 0 (l @ NUL # r) = takeWhile (\<lambda>c. c \<noteq> NUL) l"
  by (induction l) (simp_all add: cstr_def)

lemma takeWhile_update_after:
  "length (takeWhile P xs) < i \<Longrightarrow> length (takeWhile P xs) < length xs \<Longrightarrow>
   takeWhile P (xs[i := c]) = takeWhile P xs"
proof (induction xs arbitrary: i)
  case Nil
  then show ?case by simp
next
  case (Cons x xs)
  then show ?case by (cases i) (auto split: if_splits)
qed

lemma cstr_poke_after:
  assumes "length (cstr 0 b) < i" and "length (cstr 0 b) < length b"
  shows "cstr 0 (poke i c b) = cstr 0 b"
proof (cases "i < length b")
  case True
  with assms show ?thesis
    by (simp add: poke_def cstr_def takeWhile_update_after)
next
  case False
  have "\<not> (\<forall>x\<in>set b. x \<noteq> NUL)"
  proof
    assume "\<forall>x\<in>set b. x \<noteq> NUL"
    then have "takeWhile (\<lambda>c. c \<noteq> NUL) b = b"
      by simp
    with assms(2) show False by (simp add: cstr_def)
  qed
  then obtain x where "x \<in> set b" "\<not> x \<noteq> NUL" by blast
  with False show ?thesis
    by (simp add: poke_def cstr_def)
qed

lemma length_fgets_line_64: "length (fgets_line 64 content) \<le> 63"
  by (simp add: fgets_line_def)

lemma cstr_read_checksum:
  assumes "content \<noteq> []"
  shows "cstr 0 (read_checksum content b0) = takeWhile (\<lambda>c. c \<noteq> NUL) (fgets_line 64 content)"
proof -
  let ?l = "fgets_line 64 content"
  have c: "cstr 0 (store_line ?l b0) = takeWhile (\<lambda>c. c \<noteq> NUL) ?l"
    by (simp add: store_line_def cstr_append_NUL)
  have "length (takeWhile (\<lambda>c. c \<noteq> NUL) ?l) \<le> length ?l"
    by (rule length_takeWhile_le)
  with length_fgets_line_64 [of content]
  have "length (cstr 0 (store_line ?l b0)) < 64"
    and "length (cstr 0 (store_line ?l b0)) < length (store_line ?l b0)"
    unfolding c by (simp_all add: store_line_def)
  then have "cstr 0 (poke 64 NUL (store_line ?l b0)) = cstr 0 (store_line ?l b0)"
    by (rule cstr_poke_after)
  with assms c show ?thesis by (simp add: read_checksum_def)
qed

lemma failed_reload_defeats_next_check:
  assumes "configsum w1 = Some content" and "content \<noteq> []" and "conffile w1 = None"
    and "configsum w2 = Some content"
  shows "\<exists>st1. RefreshConfig False w1 st = Inr st1 \<and> cd st1 = cd st
           \<and> RefreshConfig False w2 st1 = Inr st1"
  using assms
  by (simp add: RefreshConfig_def load_config_def Let_def cstr_read_checksum)

text \<open>
  C6. When the configuration file cannot be opened at a reload, \<^verbatim>\<open>RefreshConfig\<close>
  returns and \<^verbatim>\<open>cd\<close> is as it was (\<open>reload_unreadable_keeps_snapshot\<close>). The new
  checksum is copied into \<^verbatim>\<open>hash\<close> before the file is opened, though: a reload that
  reads the digest of a changed file and then fails to open the file records that digest,
  and the next check, finding the same digest, returns at once
  (\<open>failed_reload_defeats_next_check\<close>). In the sample, the line that sets the bounce
  delay to 9 is then never read, while a reload from the state before the failure reads
  it.
\<close>

theorem failed_reload_is_not_retried:
  "RefreshConfig False unreadable_world sample_state
     = Inr (sample_state\<lparr>hash := take 63 new_digest\<rparr>)
   \<and> RefreshConfig False restored_world (sample_state\<lparr>hash := take 63 new_digest\<rparr>)
     = Inr (sample_state\<lparr>hash := take 63 new_digest\<rparr>)
   \<and> bouncedelay (switchlist (cd sample_state) 0) = 5
   \<and> (\<exists>st'. RefreshConfig False restored_world sample_state = Inr st'
         \<and> bouncedelay (switchlist (cd st') 0) = 9)"
proof -
  have "bouncedelay (switchlist (cd sample_state) 0) = 5"
    by (simp add: sample_state_def sample_cd_def sample_switch0_def)
  with failed_reload_records_digest same_digest_is_no_change reload_would_set_bounce
  show ?thesis by blast
qed

subsection \<open>One switch in the loop\<close>

lemma Action_fields [simp]:
  "cd (Action k a st) = cd st"
  "overduenotice (Action k a st) = overduenotice st"
  "LastConfigCheck (Action k a st) = LastConfigCheck st"
  "hash (Action k a st) = hash st"
  "environ (Action k a st) = environ st"
  "fe_divbyzero (Action k a st) = fe_divbyzero st"
  by (simp_all add: Action_def split: option.split)

lemma set_switch_fields [simp]:
  "switchlist (cd (set_switch ID f st)) = (switchlist (cd st))(ID := f (switchlist (cd st) ID))"
  "cd_freq (cd (set_switch ID f st)) = cd_freq (cd st)"
  "ratechange (cd (set_switch ID f st)) = ratechange (cd st)"
  "ratechangeamt (cd (set_switch ID f st)) = ratechangeamt (cd st)"
  "overdue (cd (set_switch ID f st)) = overdue (cd st)"
  "overduethreshold (cd (set_switch ID f st)) = overduethreshold (cd st)"
  "overduenotice (set_switch ID f st) = overduenotice st"
  "LastConfigCheck (set_switch ID f st) = LastConfigCheck st"
  "hash (set_switch ID f st) = hash st"
  "environ (set_switch ID f st) = environ st"
  "dispatched (set_switch ID f st) = dispatched st"
  "fe_divbyzero (set_switch ID f st) = fe_divbyzero st"
  by (simp_all add: set_switch_def)

lemma rate_change_keeps:
  "state (switchlist (cd (rate_change st)) ID) = state (switchlist (cd st) ID)"
  "LastOn (switchlist (cd (rate_change st)) ID) = LastOn (switchlist (cd st) ID)"
  "LastOff (switchlist (cd (rate_change st)) ID) = LastOff (switchlist (cd st) ID)"
  "freq (switchlist (cd (rate_change st)) ID) = freq (switchlist (cd st) ID)"
  "overduenotice (rate_change st) = overduenotice st"
  "cd_freq (cd (rate_change st)) = cd_freq (cd st)"
  by (simp_all add: rate_change_def Let_def)

lemma switch_on_switch:
  "state (switchlist (cd (switch_on t ID st)) ID) = HIGH"
  "LastOn (switchlist (cd (switch_on t ID st)) ID) = t"
  "LastOff (switchlist (cd (switch_on t ID st)) ID) = LastOff (switchlist (cd st) ID)"
  by (simp_all add: switch_on_def Let_def rate_change_keeps)

lemma switch_off_switch:
  "state (switchlist (cd (switch_off t lv ID st)) ID) = lv"
  "LastOff (switchlist (cd (switch_off t lv ID st)) ID) = t"
  "LastOn (switchlist (cd (switch_off t lv ID st)) ID) = LastOn (switchlist (cd st) ID)"
  by (simp_all add: switch_off_def Let_def)

text \<open>
  C3. For a monitored switch whose level as read differs from its stored state, the
  change is accepted exactly when \<open>t - LastOff\<close> is at least the bounce delay, for a
  change to On as for a change to Off. An accepted change stores the level read as the
  state and the time in \<open>LastOn\<close> (to On) or \<open>LastOff\<close> (to Off); a rejected one leaves
  the whole state, and so every field of the switch, as it was.
\<close>

theorem debounce_gate_on_LastOff:
  assumes "initialized (switchlist (cd st) ID) \<noteq> 0"
    and "bcm2835_gpio_lev g (pin (switchlist (cd st) ID)) \<noteq> state (switchlist (cd st) ID)"
  shows "(let sw = switchlist (cd st) ID;
              lv = bcm2835_gpio_lev g (pin sw);
              st' = switch_step t g ID st;
              sw' = switchlist (cd st') ID
          in (state sw' \<noteq> state sw) = (t - LastOff sw \<ge> bouncedelay sw)
             \<and> (if t - LastOff sw \<ge> bouncedelay sw
                 then state sw' = lv \<and> (if lv = HIGH then LastOn sw' = t else LastOff sw' = t)
                 else st' = st))"
  using assms
  by (simp add: Let_def switch_step_def switch_on_switch switch_off_switch not_le)


theorem debounce_gate_on_LastOff_witness:
  "initialized (switchlist (cd sample_state) 0) \<noteq> 0
   \<and> bcm2835_gpio_lev pin14_low (pin (switchlist (cd sample_state) 0))
       \<noteq> state (switchlist (cd sample_state) 0)
   \<and> state (switchlist (cd (switch_step 1200 pin14_low 0 sample_state)) 0) = LOW
   \<and> LastOff (switchlist (cd (switch_step 1200 pin14_low 0 sample_state)) 0) = 1200
   \<and> switch_step 1003 pin14_low 0 sample_state = sample_state"
proof -
  have f: "LastOff (switchlist (cd sample_state) 0) = 1000"
    "bouncedelay (switchlist (cd sample_state) 0) = 5"
    "state (switchlist (cd sample_state) 0) = HIGH"
    "bcm2835_gpio_lev pin14_low (pin (switchlist (cd sample_state) 0)) = LOW"
    by (simp_all add: sample_state_def sample_cd_def sample_switch0_def bcm2835_gpio_lev_def
        pin14_low_def)
  have h1: "initialized (switchlist (cd sample_state) 0) \<noteq> 0"
    by (simp add: sample_state_def sample_cd_def sample_switch0_def)
  have h2: "bcm2835_gpio_lev pin14_low (pin (switchlist (cd sample_state) 0))
       \<noteq> state (switchlist (cd sample_state) 0)"
    by (simp add: f HIGH_def LOW_def)
  from debounce_gate_on_LastOff [OF h1 h2, of 1200] debounce_gate_on_LastOff [OF h1 h2, of 1003]
    h1 h2
  show ?thesis
    by (simp add: Let_def f HIGH_def LOW_def)
qed

subsection \<open>One pass of the loop\<close>

lemma notices_Action:
  "notices k (Action k' a st)
     = notices k st @ (if k' = k then (case a of None \<Rightarrow> [] | Some c \<Rightarrow> [Executed k c (environ st)]) else [])"
  by (simp add: notices_def Action_def split: option.split)

lemma notices_cong: "dispatched st' = dispatched st \<Longrightarrow> notices k st' = notices k st"
  by (simp add: notices_def)

lemma notices_set_switch [simp]: "notices k (set_switch ID f st) = notices k st"
  by (simp add: notices_def)

lemma notices_update [simp]:
  "notices k (st\<lparr>overduenotice := x\<rparr>) = notices k st"
  "notices k (st\<lparr>environ := e\<rparr>) = notices k st"
  "notices k (st\<lparr>cd := c\<rparr>) = notices k st"
  "notices k (st\<lparr>fe_divbyzero := y\<rparr>) = notices k st"
  "notices k (st\<lparr>LastConfigCheck := z\<rparr>) = notices k st"
  by (simp_all add: notices_def)

text \<open>The overdue test.\<close>

lemma overdue_check_cd [simp]:
  "cd (overdue_check t st) = cd st"
  "fe_divbyzero (overdue_check t st) = fe_divbyzero st"
  "LastConfigCheck (overdue_check t st) = LastConfigCheck st"
  by (simp_all add: overdue_check_def Let_def)

lemma overdue_check_flag:
  "overduenotice (overdue_check t st)
     = (overduenotice st \<or> (state (sw0 st) = HIGH \<and> overdue_due t st))"
  by (auto simp add: overdue_check_def Let_def overdue_due_def sw0_def)

lemma overdue_check_notices:
  "notices k (overdue_check t st)
     = notices k st @
       (if k = OverdueSite \<and> state (sw0 st) = HIGH \<and> \<not> overduenotice st \<and> overdue_due t st
        then (case overdue (cd st) of None \<Rightarrow> [] | Some a \<Rightarrow> [Executed OverdueSite a (environ st)])
        else [])"
  by (auto simp add: overdue_check_def Let_def overdue_due_def sw0_def notices_Action
      split: option.split)

text \<open>The configuration check.\<close>

lemma config_check_frame:
  "\<exists>st'. config_check t w st = Inr st'
     \<and> (\<forall>ID. same_runtime (switchlist (cd st) ID) (switchlist (cd st') ID))
     \<and> overduenotice st' = overduenotice st
     \<and> dispatched st' = dispatched st
     \<and> environ st' = environ st
     \<and> fe_divbyzero st' = fe_divbyzero st"
proof (cases "t - LastConfigCheck st > 180")
  case True
  obtain st' where "RefreshConfig False w (st\<lparr>LastConfigCheck := t\<rparr>) = Inr st'"
    and "reload_frame (st\<lparr>LastConfigCheck := t\<rparr>) st'"
    using RefreshConfig_reload by blast
  with True show ?thesis by (simp add: config_check_def reload_frame_def)
next
  case False
  then show ?thesis by (simp add: config_check_def same_runtime_def)
qed

text \<open>A switch other than switch 0.\<close>

lemma rate_change_fe:
  "cd_freq (cd st) \<noteq> 0 \<Longrightarrow> fe_divbyzero (rate_change st) = fe_divbyzero st"
  by (simp add: rate_change_def Let_def)

lemma switch_on_fe: "fe_divbyzero (switch_on t ID st) = fe_divbyzero st"
  by (simp add: switch_on_def Let_def rate_change_fe)

lemma switch_off_fe: "fe_divbyzero (switch_off t lv ID st) = fe_divbyzero st"
  by (simp add: switch_off_def Let_def)

lemma switch_step_fe: "fe_divbyzero (switch_step t g ID st) = fe_divbyzero st"
  by (simp add: switch_step_def Let_def switch_on_fe switch_off_fe)

lemma fold_switch_step_fe:
  "fe_divbyzero (fold (switch_step t g) IDs st) = fe_divbyzero st"
  by (induction IDs arbitrary: st) (simp_all add: switch_step_fe)

lemma switch_step_other:
  assumes "ID \<noteq> 0"
  shows "sw0 (switch_step t g ID st) = sw0 st"
    and "overduenotice (switch_step t g ID st) = overduenotice st"
    and "notices OverdueSite (switch_step t g ID st) = notices OverdueSite st"
    and "notices RateChangeSite (switch_step t g ID st) = notices RateChangeSite st"
    and "ratechange (cd (switch_step t g ID st)) = ratechange (cd st)"
  using assms
  by (simp_all add: switch_step_def switch_on_def switch_off_def Let_def sw0_def notices_Action)

lemma fold_switch_step_other:
  assumes "0 \<notin> set IDs"
  shows "sw0 (fold (switch_step t g) IDs st) = sw0 st"
    and "overduenotice (fold (switch_step t g) IDs st) = overduenotice st"
    and "notices OverdueSite (fold (switch_step t g) IDs st) = notices OverdueSite st"
    and "notices RateChangeSite (fold (switch_step t g) IDs st) = notices RateChangeSite st"
    and "ratechange (cd (fold (switch_step t g) IDs st)) = ratechange (cd st)"
  using assms
  by (induction IDs arbitrary: st) (simp_all add: switch_step_other)

lemma upt_100: "[0..<100] = 0 # [1..<100]"
  by (simp add: upt_rec)

lemma scan_switches:
  "fold (switch_step t g) [0..<100] st = fold (switch_step t g) [1..<100] (switch_step t g 0 st)"
  by (simp add: upt_100)


text \<open>Switch 0 in the loop over the switches.\<close>

lemma switch_on_flag: "overduenotice (switch_on t ID st) = overduenotice st"
  by (simp add: switch_on_def Let_def rate_change_keeps)

lemma switch_on_overdue_notices:
  "notices OverdueSite (switch_on t ID st) = notices OverdueSite st"
  by (simp add: switch_on_def Let_def rate_change_def notices_Action)

lemma switch_off_overdue_notices:
  "notices OverdueSite (switch_off t lv ID st) = notices OverdueSite st"
  by (simp add: switch_off_def Let_def notices_Action)

lemma switch_step_overdue_notices:
  "notices OverdueSite (switch_step t g ID st) = notices OverdueSite st"
  by (simp add: switch_step_def Let_def switch_on_overdue_notices switch_off_overdue_notices)

lemma switch_step0_flag_kept:
  "state (sw0 (switch_step t g 0 st)) = HIGH \<Longrightarrow>
   overduenotice (switch_step t g 0 st) = overduenotice st"
  by (auto simp add: switch_step_def Let_def switch_on_flag sw0_def switch_off_switch
      split: if_splits)

lemma switch_step0_flag_reset:
  "state (sw0 st) = HIGH \<Longrightarrow> state (sw0 (switch_step t g 0 st)) \<noteq> HIGH \<Longrightarrow>
   \<not> overduenotice (switch_step t g 0 st)"
  by (auto simp add: switch_step_def Let_def sw0_def switch_on_switch switch_off_def
      split: if_splits)

text \<open>One pass of the loop.\<close>

lemma tick_steps:
  "\<exists>st1. config_check (now inp) (files inp) (overdue_check (now inp) st) = Inr st1
     \<and> tick inp st = Inr (fold (switch_step (now inp) (gpio inp)) [1..<100]
                           (switch_step (now inp) (gpio inp) 0 st1))
     \<and> (\<forall>ID. same_runtime (switchlist (cd st) ID) (switchlist (cd st1) ID))
     \<and> overduenotice st1 = overduenotice (overdue_check (now inp) st)
     \<and> dispatched st1 = dispatched (overdue_check (now inp) st)
     \<and> fe_divbyzero st1 = fe_divbyzero st"
proof -
  obtain st1 where c: "config_check (now inp) (files inp) (overdue_check (now inp) st) = Inr st1"
    and f: "\<forall>ID. same_runtime (switchlist (cd (overdue_check (now inp) st)) ID) (switchlist (cd st1) ID)"
      "overduenotice st1 = overduenotice (overdue_check (now inp) st)"
      "dispatched st1 = dispatched (overdue_check (now inp) st)"
      "fe_divbyzero st1 = fe_divbyzero (overdue_check (now inp) st)"
    using config_check_frame by blast
  from c have "tick inp st = Inr (fold (switch_step (now inp) (gpio inp)) [1..<100]
                           (switch_step (now inp) (gpio inp) 0 st1))"
    by (simp add: tick_def scan_switches)
  with c f show ?thesis by simp
qed

lemma tick_overdue:
  "\<exists>st'. tick inp st = Inr st'
     \<and> notices OverdueSite st' = notices OverdueSite st @
          (if state (sw0 st) = HIGH \<and> \<not> overduenotice st \<and> overdue_due (now inp) st
           then (case overdue (cd st) of None \<Rightarrow> [] | Some a \<Rightarrow> [Executed OverdueSite a (environ st)])
           else [])
     \<and> (state (sw0 st') = HIGH \<longrightarrow>
          overduenotice st' = (overduenotice st \<or> (state (sw0 st) = HIGH \<and> overdue_due (now inp) st)))
     \<and> (state (sw0 st) = HIGH \<and> state (sw0 st') \<noteq> HIGH \<longrightarrow> \<not> overduenotice st')
     \<and> fe_divbyzero st' = fe_divbyzero st"
proof -
  let ?t = "now inp" and ?g = "gpio inp"
  obtain st1 where t: "tick inp st = Inr (fold (switch_step ?t ?g) [1..<100] (switch_step ?t ?g 0 st1))"
    and rt: "\<forall>ID. same_runtime (switchlist (cd st) ID) (switchlist (cd st1) ID)"
    and fl: "overduenotice st1 = overduenotice (overdue_check ?t st)"
    and di: "dispatched st1 = dispatched (overdue_check ?t st)"
    and fe: "fe_divbyzero st1 = fe_divbyzero st"
    using tick_steps by blast
  define st2 where "st2 = switch_step ?t ?g 0 st1"
  define st' where "st' = fold (switch_step ?t ?g) [1..<100] st2"
  have s1: "state (sw0 st1) = state (sw0 st)"
    using rt by (simp add: same_runtime_def sw0_def)
  have sw: "sw0 st' = sw0 st2" and fl': "overduenotice st' = overduenotice st2"
    and no': "notices OverdueSite st' = notices OverdueSite st2"
    unfolding st'_def by (simp_all add: fold_switch_step_other)
  have "notices OverdueSite st2 = notices OverdueSite st1"
    by (simp add: st2_def switch_step_overdue_notices)
  also have "\<dots> = notices OverdueSite (overdue_check ?t st)"
    using di by (rule notices_cong)
  finally have n: "notices OverdueSite st' = notices OverdueSite st @
          (if state (sw0 st) = HIGH \<and> \<not> overduenotice st \<and> overdue_due ?t st
           then (case overdue (cd st) of None \<Rightarrow> [] | Some a \<Rightarrow> [Executed OverdueSite a (environ st)])
           else [])"
    using no' by (simp add: overdue_check_notices)
  have k: "state (sw0 st') = HIGH \<longrightarrow>
          overduenotice st' = (overduenotice st \<or> (state (sw0 st) = HIGH \<and> overdue_due ?t st))"
    using switch_step0_flag_kept [of ?t ?g st1] fl
    by (simp add: sw fl' st2_def overdue_check_flag)
  have r: "state (sw0 st) = HIGH \<and> state (sw0 st') \<noteq> HIGH \<longrightarrow> \<not> overduenotice st'"
    using switch_step0_flag_reset [of st1 ?t ?g] s1
    by (simp add: sw fl' st2_def)
  have "fe_divbyzero st' = fe_divbyzero st"
    by (simp add: st'_def st2_def fold_switch_step_fe switch_step_fe fe)
  with t n k r show ?thesis
    by (simp add: st'_def st2_def)
qed

lemma no_notice_while_notified:
  "overduenotice st \<Longrightarrow> stays_on inps st \<Longrightarrow>
   \<exists>st'. run inps st = Inr st' \<and> notices OverdueSite st' = notices OverdueSite st
     \<and> overduenotice st'"
proof (induction inps arbitrary: st)
  case Nil
  then show ?case by simp
next
  case (Cons inp inps)
  obtain st1 where t: "tick inp st = Inr st1"
    and n: "notices OverdueSite st1 = notices OverdueSite st @
          (if state (sw0 st) = HIGH \<and> \<not> overduenotice st \<and> overdue_due (now inp) st
           then (case overdue (cd st) of None \<Rightarrow> [] | Some a \<Rightarrow> [Executed OverdueSite a (environ st)])
           else [])"
    and k: "state (sw0 st1) = HIGH \<longrightarrow>
          overduenotice st1 = (overduenotice st \<or> (state (sw0 st) = HIGH \<and> overdue_due (now inp) st))"
    using tick_overdue by blast
  from Cons.prems t have on: "state (sw0 st1) = HIGH" and rest: "stays_on inps st1"
    by simp_all
  from k on Cons.prems have "overduenotice st1" by simp
  from Cons.IH [OF this rest] obtain st' where "run inps st1 = Inr st'"
    and "notices OverdueSite st' = notices OverdueSite st1" and "overduenotice st'"
    by blast
  with t n Cons.prems show ?case by simp
qed

lemma at_most_one_notice:
  "stays_on inps st \<Longrightarrow>
   \<exists>st'. run inps st = Inr st'
     \<and> length (notices OverdueSite st')
         \<le> length (notices OverdueSite st) + (if overduenotice st then 0 else 1)"
proof (induction inps arbitrary: st)
  case Nil
  then show ?case by simp
next
  case (Cons inp inps)
  obtain st1 where t: "tick inp st = Inr st1"
    and n: "notices OverdueSite st1 = notices OverdueSite st @
          (if state (sw0 st) = HIGH \<and> \<not> overduenotice st \<and> overdue_due (now inp) st
           then (case overdue (cd st) of None \<Rightarrow> [] | Some a \<Rightarrow> [Executed OverdueSite a (environ st)])
           else [])"
    and k: "state (sw0 st1) = HIGH \<longrightarrow>
          overduenotice st1 = (overduenotice st \<or> (state (sw0 st) = HIGH \<and> overdue_due (now inp) st))"
    using tick_overdue by blast
  from Cons.prems t have on: "state (sw0 st1) = HIGH" and rest: "stays_on inps st1"
    by simp_all
  from Cons.IH [OF rest] obtain st' where r: "run inps st1 = Inr st'"
    and le: "length (notices OverdueSite st')
         \<le> length (notices OverdueSite st1) + (if overduenotice st1 then 0 else 1)"
    by blast
  from k on have f1: "overduenotice st1 = (overduenotice st \<or> (state (sw0 st) = HIGH \<and> overdue_due (now inp) st))"
    by simp
  have "length (notices OverdueSite st1) + (if overduenotice st1 then 0 else 1)
      \<le> length (notices OverdueSite st) + (if overduenotice st then 0 else 1)"
    using n f1 by (auto split: option.split)
  with le r t show ?case by simp
qed


subsection \<open>The rate-change detector\<close>

text \<open>
  The rounding decides the comparison at the edge of the band. A tenth rounds to the
  \<^verbatim>\<open>double\<close> 3602879701896397 / 2^55. With a baseline of 136, a frequency of 100 and
  a threshold of 36 percent the quotient rounds to a \<^verbatim>\<open>double\<close> above the rounded
  \<open>1 + 0.36\<close>, and the detector fires, though 136 / 100 is not more than 1.36; with 6,
  5 and 20 the two round to the same \<^verbatim>\<open>double\<close> and it does not fire.
\<close>

lemma to_double_tenth: "to_double (1 / 10) = 3602879701896397 / 36028797018963968"
  by code_simp

lemma ratio_exceeds_at_band_edge:
  "ratio_exceeds 136 100 36 \<and> \<not> (136 / 100 > 1 + 36 / (100::rat))
   \<and> \<not> ratio_exceeds 6 5 20 \<and> ratio_exceeds 121 100 20 \<and> \<not> ratio_exceeds 120 100 20
   \<and> ratio_exceeds 79 100 20 \<and> \<not> ratio_exceeds 80 100 20"
  by code_simp

lemma zero_count:
  "(fold (\<lambda>i z. if a i = 0 then z + 1 else z) [0..<FREQ_HISTORY] (0::int) = 0)
     = list_all (\<lambda>i. a i \<noteq> (0::int)) [0..<FREQ_HISTORY]"
  by (simp add: upt_FREQ_HISTORY)

lemma rate_change_sw0_freq: "freq (sw0 (rate_change st)) = freq (sw0 st)"
  by (simp add: sw0_def rate_change_keeps)

lemma switch_on_cd_freq:
  "cd_freq (cd (switch_on t ID st)) = GetFrequency (sw0 (switch_on t ID st))"
  by (simp add: switch_on_def Let_def rate_change_keeps sw0_def GetFrequency_def)

lemma switch_on_skip:
  "cd_freq (cd (switch_on t ID st)) = 0 \<Longrightarrow>
   lastfreq (sw0 (switch_on t ID st)) = lastfreq (sw0 st)
   \<and> notices RateChangeSite (switch_on t ID st) = notices RateChangeSite st"
  by (auto simp add: switch_on_def Let_def rate_change_keeps sw0_def notices_Action
      split: if_splits)

lemma run_fe: "run inps st = Inr st' \<Longrightarrow> fe_divbyzero st' = fe_divbyzero st"
proof (induction inps arbitrary: st)
  case Nil
  then show ?case by simp
next
  case (Cons inp inps)
  obtain st1 where t: "tick inp st = Inr st1" and f: "fe_divbyzero st1 = fe_divbyzero st"
    using tick_overdue by blast
  with Cons.prems have "run inps st1 = Inr st'" by simp
  with Cons.IH f show ?case by simp
qed

lemma switch_on_other_switch:
  "ID \<noteq> 0 \<Longrightarrow>
   sw0 (switch_on t ID st) = sw0 st
   \<and> notices RateChangeSite (switch_on t ID st) = notices RateChangeSite st"
  by (simp add: switch_on_def Let_def sw0_def notices_Action)

lemma switch_on_no_action:
  "ratechange (cd st) = None \<Longrightarrow>
   lastfreq (sw0 (switch_on t ID st)) = lastfreq (sw0 st)
   \<and> notices RateChangeSite (switch_on t ID st) = notices RateChangeSite st"
  by (simp add: switch_on_def Let_def sw0_def notices_Action)

text \<open>
  C9. The frequency estimate of an accepted change to On is \<open>cd_freq\<close>, the value of
  \<^verbatim>\<open>GetFrequency\<close> for switch 0 after the history is updated. When it is 0 the detector is
  skipped: the baseline of switch 0 is as before and no rate-change command is dispatched,
  as for a switch other than switch 0 and when no rate-change action is configured.
  The division \<^verbatim>\<open>lastfreq / freq\<close> is therefore never evaluated with a zero divisor: the
  divide-by-zero flag is the same after the step of any switch, and after any run of the
  loop, as before. (The flag is not idle: \<open>rate_change\<close> itself, applied to a state with a
  baseline and a frequency of 0, raises it.)
\<close>

theorem rate_change_gated_on_nonzero_frequency:
  "cd_freq (cd (switch_on t ID st)) = GetFrequency (sw0 (switch_on t ID st))
   \<and> (cd_freq (cd (switch_on t ID st)) = 0 \<longrightarrow>
        lastfreq (sw0 (switch_on t ID st)) = lastfreq (sw0 st)
        \<and> notices RateChangeSite (switch_on t ID st) = notices RateChangeSite st)
   \<and> (ID \<noteq> 0 \<longrightarrow>
        sw0 (switch_on t ID st) = sw0 st
        \<and> notices RateChangeSite (switch_on t ID st) = notices RateChangeSite st)
   \<and> (ratechange (cd st) = None \<longrightarrow>
        lastfreq (sw0 (switch_on t ID st)) = lastfreq (sw0 st)
        \<and> notices RateChangeSite (switch_on t ID st) = notices RateChangeSite st)
   \<and> fe_divbyzero (switch_step t g ID st) = fe_divbyzero st
   \<and> (\<forall>st'. run inps st = Inr st' \<longrightarrow> fe_divbyzero st' = fe_divbyzero st)
   \<and> (lastfreq (sw0 st) \<noteq> 0 \<and> cd_freq (cd st) = 0 \<longrightarrow> fe_divbyzero (rate_change st))"
proof -
  have "lastfreq (sw0 st) \<noteq> 0 \<and> cd_freq (cd st) = 0 \<longrightarrow> fe_divbyzero (rate_change st)"
    by (simp add: rate_change_def Let_def sw0_def)
  then show ?thesis
    using switch_on_skip [of t ID st] run_fe [of inps st] switch_on_other_switch [of ID t st]
      switch_on_no_action [of st t ID]
    by (simp add: switch_on_cd_freq switch_step_fe)
qed

theorem rate_change_gated_witness:
  "cd_freq (cd (switch_on 1200 0 fresh_state)) = 0
   \<and> ratechange (cd fresh_state) = Some ''rc''
   \<and> lastfreq (sw0 (switch_on 1200 0 fresh_state)) = 77
   \<and> notices RateChangeSite (switch_on 1200 0 fresh_state) = []
   \<and> sw0 (switch_on 1200 1 sample_low) = sw0 sample_low
   \<and> notices RateChangeSite (switch_on 1200 1 sample_low) = []
   \<and> lastfreq (sw0 (switch_on 1150 0 (sample_low\<lparr>cd := (cd sample_low)\<lparr>ratechange := None\<rparr>\<rparr>))) = 0
   \<and> \<not> fe_divbyzero (switch_step 1200 pin14_high 0 fresh_state)
   \<and> (\<exists>st'. run [at_time 1200 pin14_high no_files] fresh_state = Inr st' \<and> \<not> fe_divbyzero st')
   \<and> lastfreq (sw0 (fresh_state\<lparr>cd := (cd fresh_state)\<lparr>cd_freq := 0\<rparr>\<rparr>)) \<noteq> 0
   \<and> fe_divbyzero (rate_change (fresh_state\<lparr>cd := (cd fresh_state)\<lparr>cd_freq := 0\<rparr>\<rparr>))"
proof -
  let ?U = "sample_low\<lparr>cd := (cd sample_low)\<lparr>ratechange := None\<rparr>\<rparr>"
  have z: "cd_freq (cd (switch_on 1200 0 fresh_state)) = 0"
    by code_simp
  have e: "ratechange (cd fresh_state) = Some ''rc''" "lastfreq (sw0 fresh_state) = 77"
    "notices RateChangeSite fresh_state = []" "\<not> fe_divbyzero fresh_state"
    by (simp_all add: fresh_state_def sample_state_def sample_cd_def sample_switch0_def sw0_def
        notices_def)
  have u: "notices RateChangeSite sample_low = []" "ratechange (cd ?U) = None"
    "lastfreq (sw0 ?U) = 0"
    by (simp_all add: sample_low_def sample_state_def sample_cd_def sample_switch0_def sw0_def
        notices_def)
  obtain st' where r: "run [at_time 1200 pin14_high no_files] fresh_state = Inr st'"
    using tick_overdue [of "at_time 1200 pin14_high no_files" fresh_state] by auto
  have l: "lastfreq (sw0 (fresh_state\<lparr>cd := (cd fresh_state)\<lparr>cd_freq := 0\<rparr>\<rparr>)) \<noteq> 0
      \<and> cd_freq (cd (fresh_state\<lparr>cd := (cd fresh_state)\<lparr>cd_freq := 0\<rparr>\<rparr>)) = 0"
    by (simp add: fresh_state_def sample_state_def sample_cd_def sample_switch0_def sw0_def)
  from rate_change_gated_on_nonzero_frequency
         [of 1200 0 fresh_state pin14_high "[at_time 1200 pin14_high no_files]"]
       rate_change_gated_on_nonzero_frequency
         [of 1200 0 "fresh_state\<lparr>cd := (cd fresh_state)\<lparr>cd_freq := 0\<rparr>\<rparr>" pin14_high "[]"]
       rate_change_gated_on_nonzero_frequency [of 1200 1 sample_low pin14_high "[]"]
       rate_change_gated_on_nonzero_frequency [of 1150 0 ?U pin14_high "[]"]
       z e r l u
  show ?thesis by simp
qed

text \<open>The first baseline.\<close>

lemma switch_step0_baseline:
  assumes "lastfreq (sw0 st) = 0" and "lastfreq (sw0 (switch_step t g 0 st)) \<noteq> 0"
  shows "list_all (\<lambda>i. freq (sw0 (switch_step t g 0 st)) i \<noteq> 0) [0..<FREQ_HISTORY]
    \<and> lastfreq (sw0 (switch_step t g 0 st)) = GetFrequency (sw0 (switch_step t g 0 st))
    \<and> state (sw0 (switch_step t g 0 st)) = HIGH
    \<and> (\<exists>a e. ratechange (cd (switch_step t g 0 st)) = Some a
          \<and> notices RateChangeSite (switch_step t g 0 st)
              = notices RateChangeSite st @ [Executed RateChangeSite a e])"
proof -
  have on: "switch_step t g 0 st = switch_on t 0 st"
    using assms
    by (auto simp add: switch_step_def Let_def sw0_def switch_off_def split: if_splits)
  define st4 where "st4 =
     Action (SwitchOnSite 0) (OnAction (switchlist (cd st) 0))
       (let st1 = set_switch 0 (\<lambda>s. s\<lparr>state := HIGH,
                    freq := (let a1 = fold (\<lambda>i a. a(i := a (i + 1))) [0..<FREQ_HISTORY - 1] (freq (switchlist (cd st) 0))
                             in if LastOn (switchlist (cd st) 0) \<noteq> 0 then a1(FREQ_HISTORY - 1 := t - LastOn (switchlist (cd st) 0)) else a1),
                    LastOn := t\<rparr>) st;
            st2 = st1\<lparr>cd := (cd st1)\<lparr>cd_freq := GetFrequency (switchlist (cd st1) 0)\<rparr>\<rparr>
        in st2\<lparr>environ := SetEnvironment (switchlist (cd st2) 0) (cd st2) (environ st2)\<rparr>)"
  have so: "switch_on t 0 st = (if cd_freq (cd st4) \<noteq> 0 \<and> ratechange (cd st4) \<noteq> None then rate_change st4 else st4)"
    by (simp add: switch_on_def st4_def Let_def)
  have l4: "lastfreq (sw0 st4) = 0" and s4: "state (sw0 st4) = HIGH"
    and c4: "cd_freq (cd st4) = GetFrequency (sw0 st4)"
    and n4: "notices RateChangeSite st4 = notices RateChangeSite st"
    using assms(1) by (simp_all add: st4_def Let_def sw0_def notices_Action)
  from assms(2) on so l4 have g: "cd_freq (cd st4) \<noteq> 0" "ratechange (cd st4) \<noteq> None"
    and r: "switch_on t 0 st = rate_change st4"
    by (auto split: if_splits)
  from g obtain a where a: "ratechange (cd st4) = Some a" by auto
  have z: "list_all (\<lambda>i. freq (sw0 st4) i \<noteq> 0) [0..<FREQ_HISTORY]"
  proof (rule ccontr)
    assume "\<not> list_all (\<lambda>i. freq (sw0 st4) i \<noteq> 0) [0..<FREQ_HISTORY]"
    then have "rate_change st4 = st4"
      using l4 zero_count [of "freq (sw0 st4)"] by (simp add: rate_change_def Let_def sw0_def)
    with assms(2) on r l4 show False by simp
  qed
  then have rc: "rate_change st4
      = set_switch 0 (\<lambda>s. s\<lparr>lastfreq := cd_freq (cd st4)\<rparr>) (Action RateChangeSite (Some a) st4)"
    using l4 a zero_count [of "freq (sw0 st4)"] by (simp add: rate_change_def Let_def sw0_def)
  have "freq (sw0 (rate_change st4)) = freq (sw0 st4)"
    by (rule rate_change_sw0_freq)
  moreover have "lastfreq (sw0 (rate_change st4)) = GetFrequency (sw0 (rate_change st4))"
    using c4 by (simp add: rc sw0_def GetFrequency_def)
  moreover have "state (sw0 (rate_change st4)) = HIGH"
    using s4 by (simp add: sw0_def rate_change_keeps)
  moreover have "ratechange (cd (rate_change st4)) = Some a"
    using a by (simp add: rc)
  moreover have "notices RateChangeSite (rate_change st4)
      = notices RateChangeSite st @ [Executed RateChangeSite a (environ st4)]"
    using n4 by (simp add: rc notices_Action)
  ultimately show ?thesis
    using z by (simp add: on r)
qed

text \<open>
  C2, as the specification states it, has no rate-change action fired on the pass that
  establishes the first baseline. In the sample state with switch 0 Off, a full history
  and no baseline, the pass at time 1150 that sees switch 0 On sets the baseline to 100
  and dispatches the On action and then the rate-change action (the source:
  \<^verbatim>\<open>Action(cd.ratechange)\<close> stands beside the assignment of \<^verbatim>\<open>lastfreq\<close>, under
  the comment \<^verbatim>\<open>only send rate if we've seen FREQ_HISTORY cycles so far\<close>).
\<close>

theorem first_baseline_counterexample:
  "(case tick (at_time 1150 pin14_high no_files) sample_low of
      Inl n \<Rightarrow> False
    | Inr st' \<Rightarrow>
        lastfreq (sw0 sample_low) = 0 \<and> lastfreq (sw0 st') = 100
        \<and> dispatched sample_low = []
        \<and> map event_site (dispatched st') = [SwitchOnSite 0, RateChangeSite])"
  by code_simp


text \<open>
  C2, amended. A pass that takes the baseline of switch 0 from 0 to a value other than 0
  leaves a history with no zero slot, with switch 0 On and the baseline equal to the
  frequency estimate, and it dispatches the configured rate-change action exactly once.
\<close>

theorem first_baseline_fires_rate_change:
  assumes "tick inp st = Inr st'" and "lastfreq (sw0 st) = 0" and "lastfreq (sw0 st') \<noteq> 0"
  shows "list_all (\<lambda>i. freq (sw0 st') i \<noteq> 0) [0..<FREQ_HISTORY]
    \<and> lastfreq (sw0 st') = GetFrequency (sw0 st')
    \<and> state (sw0 st') = HIGH
    \<and> (\<exists>a e. ratechange (cd st') = Some a
          \<and> notices RateChangeSite st' = notices RateChangeSite st @ [Executed RateChangeSite a e])"
proof -
  let ?t = "now inp" and ?g = "gpio inp"
  obtain st1 where t: "tick inp st = Inr (fold (switch_step ?t ?g) [1..<100] (switch_step ?t ?g 0 st1))"
    and rt: "\<forall>ID. same_runtime (switchlist (cd st) ID) (switchlist (cd st1) ID)"
    and di: "dispatched st1 = dispatched (overdue_check ?t st)"
    using tick_steps by blast
  define st2 where "st2 = switch_step ?t ?g 0 st1"
  from t assms(1) have st': "st' = fold (switch_step ?t ?g) [1..<100] st2"
    by (simp add: st2_def)
  have sw: "sw0 st' = sw0 st2" and no: "notices RateChangeSite st' = notices RateChangeSite st2"
    and rc: "ratechange (cd st') = ratechange (cd st2)"
    unfolding st' by (simp_all add: fold_switch_step_other)
  have l1: "lastfreq (sw0 st1) = 0"
    using rt assms(2) by (simp add: same_runtime_def sw0_def)
  have "notices RateChangeSite st1 = notices RateChangeSite (overdue_check ?t st)"
    using di by (rule notices_cong)
  then have n1: "notices RateChangeSite st1 = notices RateChangeSite st"
    by (simp add: overdue_check_notices)
  from assms(3) sw have "lastfreq (sw0 (switch_step ?t ?g 0 st1)) \<noteq> 0"
    by (simp add: st2_def)
  from switch_step0_baseline [OF l1 this] show ?thesis
    by (simp add: sw no rc n1 st2_def [symmetric])
qed

theorem first_baseline_witness:
  "lastfreq (sw0 sample_low) = 0
   \<and> (\<exists>st'. tick (at_time 1150 pin14_high no_files) sample_low = Inr st'
         \<and> lastfreq (sw0 st') = 100
         \<and> list_all (\<lambda>i. freq (sw0 st') i \<noteq> 0) [0..<FREQ_HISTORY]
         \<and> state (sw0 st') = HIGH
         \<and> (\<exists>a e. ratechange (cd st') = Some a
               \<and> notices RateChangeSite st' = [Executed RateChangeSite a e]))"
proof -
  obtain st' where t: "tick (at_time 1150 pin14_high no_files) sample_low = Inr st'"
    using tick_overdue by blast
  have "lastfreq (sw0 (projr (tick (at_time 1150 pin14_high no_files) sample_low))) = 100"
    by code_simp
  with t have l: "lastfreq (sw0 st') = 100" by simp
  then have n: "lastfreq (sw0 st') \<noteq> 0" by simp
  have z: "lastfreq (sw0 sample_low) = 0" "notices RateChangeSite sample_low = []"
    by (simp_all add: sample_low_def sample_state_def sample_cd_def sample_switch0_def sw0_def
        notices_def)
  from first_baseline_fires_rate_change [OF t z(1) n] t l z show ?thesis
    by simp
qed


subsection \<open>The overdue detector\<close>

text \<open>
  C1. In one pass the overdue action is dispatched exactly when switch 0 is On, no notice
  has been given in this episode and the overdue condition holds: the frequency estimate
  is not 0 and \<open>now - LastOff\<close> is at least the estimate plus the threshold. While switch
  0 stays On the notified flag, once set, stays set and nothing more is dispatched, so an
  episode has at most one notice; a pass in which switch 0 goes from On to Off (an
  accepted change to Off) ends with the flag reset, which allows a notice in a later
  episode.
\<close>

theorem overdue_once_per_episode:
  "(\<exists>st'. tick inp st = Inr st'
      \<and> notices OverdueSite st' = notices OverdueSite st @
           (if state (sw0 st) = HIGH \<and> \<not> overduenotice st \<and> overdue_due (now inp) st
            then (case overdue (cd st) of
                    None \<Rightarrow> []
                  | Some a \<Rightarrow> [Executed OverdueSite a (environ st)])
            else [])
      \<and> (state (sw0 st') = HIGH \<longrightarrow>
            overduenotice st'
              = (overduenotice st \<or> (state (sw0 st) = HIGH \<and> overdue_due (now inp) st)))
      \<and> (state (sw0 st) = HIGH \<and> state (sw0 st') \<noteq> HIGH \<longrightarrow> \<not> overduenotice st'))
   \<and> (overduenotice st \<and> stays_on inps st \<longrightarrow>
        (\<exists>st'. run inps st = Inr st' \<and> notices OverdueSite st' = notices OverdueSite st
           \<and> overduenotice st'))
   \<and> (state (sw0 st) = HIGH \<and> stays_on inps st \<longrightarrow>
        (\<exists>st'. run inps st = Inr st'
           \<and> length (notices OverdueSite st') \<le> length (notices OverdueSite st) + 1))"
proof -
  have a: "\<exists>st'. tick inp st = Inr st'
      \<and> notices OverdueSite st' = notices OverdueSite st @
           (if state (sw0 st) = HIGH \<and> \<not> overduenotice st \<and> overdue_due (now inp) st
            then (case overdue (cd st) of
                    None \<Rightarrow> []
                  | Some a \<Rightarrow> [Executed OverdueSite a (environ st)])
            else [])
      \<and> (state (sw0 st') = HIGH \<longrightarrow>
            overduenotice st'
              = (overduenotice st \<or> (state (sw0 st) = HIGH \<and> overdue_due (now inp) st)))
      \<and> (state (sw0 st) = HIGH \<and> state (sw0 st') \<noteq> HIGH \<longrightarrow> \<not> overduenotice st')"
    using tick_overdue [of inp st] by blast
  have b: "overduenotice st \<and> stays_on inps st \<longrightarrow>
        (\<exists>st'. run inps st = Inr st' \<and> notices OverdueSite st' = notices OverdueSite st
           \<and> overduenotice st')"
    using no_notice_while_notified by blast
  have c: "state (sw0 st) = HIGH \<and> stays_on inps st \<longrightarrow>
        (\<exists>st'. run inps st = Inr st'
           \<and> length (notices OverdueSite st') \<le> length (notices OverdueSite st) + 1)"
  proof
    assume "state (sw0 st) = HIGH \<and> stays_on inps st"
    then obtain st' where "run inps st = Inr st'"
      and "length (notices OverdueSite st')
         \<le> length (notices OverdueSite st) + (if overduenotice st then 0 else 1)"
      using at_most_one_notice by blast
    then show "\<exists>st'. run inps st = Inr st'
           \<and> length (notices OverdueSite st') \<le> length (notices OverdueSite st) + 1"
      by (auto split: if_splits)
  qed
  from a b c show ?thesis by blast
qed

theorem overdue_once_per_episode_witness:
  "state (sw0 sample_state) = HIGH \<and> \<not> overduenotice sample_state
   \<and> \<not> overdue_due 1119 sample_state \<and> overdue_due 1120 sample_state
   \<and> (\<exists>st'. tick (at_time 1119 pin14_high no_files) sample_state = Inr st'
         \<and> notices OverdueSite st' = [])
   \<and> (\<exists>st'. tick (at_time 1120 pin14_high no_files) sample_state = Inr st'
         \<and> notices OverdueSite st' = [Executed OverdueSite ''alarm'' []]
         \<and> overduenotice st')
   \<and> stays_on [at_time 1119 pin14_high no_files, at_time 1120 pin14_high no_files,
                at_time 1200 pin14_high no_files] sample_state
   \<and> (\<exists>st'. run [at_time 1119 pin14_high no_files, at_time 1120 pin14_high no_files,
                  at_time 1200 pin14_high no_files] sample_state = Inr st'
         \<and> length (notices OverdueSite st') \<le> 1)
   \<and> (\<exists>st'. run [at_time 1200 pin14_high no_files] (sample_state\<lparr>overduenotice := True\<rparr>) = Inr st'
         \<and> notices OverdueSite st' = [] \<and> overduenotice st')
   \<and> (\<exists>st'. tick (at_time 1130 pin14_low no_files) (sample_state\<lparr>overduenotice := True\<rparr>) = Inr st'
         \<and> \<not> overduenotice st')
   \<and> (case run [at_time 1119 pin14_high no_files, at_time 1120 pin14_high no_files,
                  at_time 1200 pin14_high no_files, at_time 1300 pin14_low no_files,
                  at_time 1310 pin14_high no_files, at_time 1459 pin14_high no_files,
                  at_time 1460 pin14_high no_files, at_time 1500 pin14_high no_files]
             sample_state of
         Inl n \<Rightarrow> False
       | Inr st' \<Rightarrow>
           map event_site (dispatched st')
             = [OverdueSite, SwitchOffSite 0, SwitchOnSite 0, RateChangeSite, OverdueSite])"
proof -
  let ?i1 = "at_time 1119 pin14_high no_files" and ?i2 = "at_time 1120 pin14_high no_files"
    and ?i3 = "at_time 1200 pin14_high no_files" and ?i4 = "at_time 1130 pin14_low no_files"
  let ?N = "sample_state\<lparr>overduenotice := True\<rparr>"
  have s: "state (sw0 sample_state) = HIGH" "\<not> overduenotice sample_state"
    "notices OverdueSite sample_state = []" "overdue (cd sample_state) = Some ''alarm''"
    "environ sample_state = []"
    "state (sw0 ?N) = HIGH" "overduenotice ?N" "notices OverdueSite ?N = []"
    by (simp_all add: sample_state_def sample_cd_def sample_switch0_def sw0_def notices_def)
  have d: "\<not> overdue_due 1119 sample_state" "overdue_due 1120 sample_state"
    by code_simp+
  have n: "now ?i1 = 1119" "now ?i2 = 1120"
    by (simp_all add: at_time_def)
  have on2: "state (sw0 (projr (tick ?i2 sample_state))) = HIGH"
    by code_simp
  have off4: "state (sw0 (projr (tick ?i4 ?N))) \<noteq> HIGH"
    by code_simp
  have ep: "stays_on [?i1, ?i2, ?i3] sample_state"
    by code_simp
  have ep3: "stays_on [?i3] ?N"
    by code_simp
  from overdue_once_per_episode [of ?i1 sample_state "[?i1, ?i2, ?i3]"]
  have 1: "\<exists>st'. tick ?i1 sample_state = Inr st' \<and> notices OverdueSite st' = []"
    and 3: "\<exists>st'. run [?i1, ?i2, ?i3] sample_state = Inr st'
         \<and> length (notices OverdueSite st') \<le> 1"
    using s d n ep by auto
  from overdue_once_per_episode [of ?i2 sample_state "[]"] on2
  have 2: "\<exists>st'. tick ?i2 sample_state = Inr st'
         \<and> notices OverdueSite st' = [Executed OverdueSite ''alarm'' []]
         \<and> overduenotice st'"
    using s d n by auto
  from overdue_once_per_episode [of ?i4 ?N "[?i3]"] off4
  have 4: "\<exists>st'. run [?i3] ?N = Inr st' \<and> notices OverdueSite st' = [] \<and> overduenotice st'"
    and 5: "\<exists>st'. tick ?i4 ?N = Inr st' \<and> \<not> overduenotice st'"
    using s ep3 by auto
  have 6: "case run [?i1, ?i2, ?i3, at_time 1300 pin14_low no_files,
                  at_time 1310 pin14_high no_files, at_time 1459 pin14_high no_files,
                  at_time 1460 pin14_high no_files, at_time 1500 pin14_high no_files]
             sample_state of
         Inl n \<Rightarrow> False
       | Inr st' \<Rightarrow>
           map event_site (dispatched st')
             = [OverdueSite, SwitchOffSite 0, SwitchOnSite 0, RateChangeSite, OverdueSite]"
    by code_simp
  from s(1,2) d ep 1 2 3 4 5 6 show ?thesis by blast
qed

text \<open>
  C10, as the specification states it, has no overdue notice for the episode in progress
  from an overdue action that a reload configures during the episode. The notified flag is
  set only when the overdue condition is met, so this fails for a reload that comes before
  that: in the sample state with no overdue action and switch 0 On since time 1050, the
  pass at time 1100 reloads a configuration that sets the overdue action, the condition is
  not yet met (100 seconds since the last Off, 120 needed), and the pass at time 1120,
  with switch 0 still On, dispatches the new action.
\<close>

theorem reload_before_overdue_counterexample:
  "state (sw0 early_check_state) = HIGH \<and> overdue (cd early_check_state) = None
   \<and> \<not> overduenotice early_check_state \<and> dispatched early_check_state = []
   \<and> \<not> overdue_due 1100 early_check_state
   \<and> stays_on [at_time 1100 pin14_high overdue_world, at_time 1120 pin14_high no_files]
         early_check_state
   \<and> (case tick (at_time 1100 pin14_high overdue_world) early_check_state of
         Inl n \<Rightarrow> False
       | Inr st1 \<Rightarrow>
           overdue (cd st1) = Some ''alarm'' \<and> \<not> overduenotice st1 \<and> dispatched st1 = [])
   \<and> (case run [at_time 1100 pin14_high overdue_world, at_time 1120 pin14_high no_files]
             early_check_state of
         Inl n \<Rightarrow> False
       | Inr st' \<Rightarrow> dispatched st' = [Executed OverdueSite ''alarm'' []])"
  by code_simp

text \<open>
  C10, amended. When the overdue condition is met, the pass sets the notified flag whether
  or not an overdue action is configured, and with none configured it dispatches nothing.
  From then on, while switch 0 stays On, no overdue command is dispatched, whatever the
  passes read from the configuration file: an overdue action that a reload brings in after
  the condition has been met gives no notice for that episode.
\<close>

theorem notified_without_overdue_action:
  assumes "state (sw0 st) = HIGH" and "\<not> overduenotice st" and "overdue_due (now inp) st"
    and "tick inp st = Inr st1" and "state (sw0 st1) = HIGH" and "stays_on inps st1"
  shows "overduenotice st1
     \<and> (overdue (cd st) = None \<longrightarrow> notices OverdueSite st1 = notices OverdueSite st)
     \<and> (\<exists>st'. run inps st1 = Inr st' \<and> notices OverdueSite st' = notices OverdueSite st1
           \<and> overduenotice st')"
proof -
  obtain st' where t: "tick inp st = Inr st'"
    and n: "notices OverdueSite st' = notices OverdueSite st @
           (if state (sw0 st) = HIGH \<and> \<not> overduenotice st \<and> overdue_due (now inp) st
            then (case overdue (cd st) of
                    None \<Rightarrow> []
                  | Some a \<Rightarrow> [Executed OverdueSite a (environ st)])
            else [])"
    and k: "state (sw0 st') = HIGH \<longrightarrow>
            overduenotice st'
              = (overduenotice st \<or> (state (sw0 st) = HIGH \<and> overdue_due (now inp) st))"
    using tick_overdue [of inp st] by blast
  from t assms(4) have e: "st' = st1" by simp
  from k e assms have f: "overduenotice st1" by simp
  from n e have "overdue (cd st) = None \<longrightarrow> notices OverdueSite st1 = notices OverdueSite st"
    by simp
  with f no_notice_while_notified [OF f assms(6)] show ?thesis by blast
qed

theorem notified_without_overdue_action_witness:
  "state (sw0 unconfigured_state) = HIGH \<and> \<not> overduenotice unconfigured_state
   \<and> overdue_due 1120 unconfigured_state \<and> overdue (cd unconfigured_state) = None
   \<and> (\<exists>st1 st'. tick (at_time 1120 pin14_high no_files) unconfigured_state = Inr st1
         \<and> overduenotice st1 \<and> notices OverdueSite st1 = []
         \<and> run [at_time 1300 pin14_high overdue_world] st1 = Inr st'
         \<and> overdue (cd st') = Some ''alarm'' \<and> state (sw0 st') = HIGH
         \<and> notices OverdueSite st' = [])"
proof -
  let ?i1 = "at_time 1120 pin14_high no_files" and ?i2 = "at_time 1300 pin14_high overdue_world"
  have s: "state (sw0 unconfigured_state) = HIGH" "\<not> overduenotice unconfigured_state"
    "overdue (cd unconfigured_state) = None" "notices OverdueSite unconfigured_state = []"
    by (simp_all add: unconfigured_state_def sample_state_def sample_cd_def sample_switch0_def
        sw0_def notices_def)
  have d: "overdue_due (now ?i1) unconfigured_state"
    by code_simp
  obtain st1 where t: "tick ?i1 unconfigured_state = Inr st1"
    using tick_overdue by blast
  have "state (sw0 (projr (tick ?i1 unconfigured_state))) = HIGH"
    by code_simp
  with t have on: "state (sw0 st1) = HIGH" by simp
  have "stays_on [?i2] (projr (tick ?i1 unconfigured_state))"
    by code_simp
  with t have ep: "stays_on [?i2] st1" by simp
  from notified_without_overdue_action [OF s(1) s(2) d t on ep]
  obtain st' where f: "overduenotice st1" "notices OverdueSite st1 = []"
    and r: "run [?i2] st1 = Inr st'" and n: "notices OverdueSite st' = []"
    using s by auto
  have "overdue (cd (projr (run [?i2] (projr (tick ?i1 unconfigured_state))))) = Some ''alarm''"
    "state (sw0 (projr (run [?i2] (projr (tick ?i1 unconfigured_state))))) = HIGH"
    by code_simp+
  with t r have o: "overdue (cd st') = Some ''alarm''" "state (sw0 st') = HIGH" by simp_all
  have d': "overdue_due 1120 unconfigured_state"
    using d by (simp add: at_time_def)
  from s d' t f r n o show ?thesis by blast
qed

end
